theory Spec2Isabelle
  imports
    Main
    "HOL-Library.Sublist"
    "HOL-Library.AList"
    "HOL-Library.Char_ord"
    "HOL-Library.Option_ord"
    "HOL-Library.List_Lexorder"
    "HOL-Library.Product_Lexorder"
begin

section \<open>Python strings\<close>

text \<open>
  A Python \<open>str\<close> is a \<open>string\<close>; column names, stat names and player names are taken
  to be ASCII. \<open>h in s\<close> on strings is \<^const>\<open>sublist\<close> (a contiguous occurrence).
\<close>

definition is_space :: "char \<Rightarrow> bool" where
  \<comment> \<open>\<open>str.isspace\<close> on ASCII: TAB, LF, VT, FF, CR, FS, GS, RS, US and the blank.\<close>
  "is_space c = (of_char c \<in> {9, 10, 11, 12, 13, 28, 29, 30, 31, 32 :: nat})"

definition py_strip :: "string \<Rightarrow> string" where
  "py_strip s = rev (dropWhile is_space (rev (dropWhile is_space s)))"

definition lower_char :: "char \<Rightarrow> char" where
  "lower_char c =
     (let n = of_char c :: nat in if 65 \<le> n \<and> n \<le> 90 then char_of (n + 32) else c)"

definition py_lower :: "string \<Rightarrow> string" where
  "py_lower s = map lower_char s"

fun py_split :: "string \<Rightarrow> string \<Rightarrow> string list" where
  \<comment> \<open>\<open>s.split()\<close>: the maximal runs of non-blank characters; the first argument is the
      run being read.\<close>
  "py_split w [] = (if w = [] then [] else [w])"
| "py_split w (c # cs) =
     (if is_space c then (if w = [] then py_split [] cs else w # py_split [] cs)
      else py_split (w @ [c]) cs)"

fun py_join :: "string \<Rightarrow> string list \<Rightarrow> string" where
  "py_join sep [] = []"
| "py_join sep [w] = w"
| "py_join sep (w # ws) = w @ sep @ py_join sep ws"

definition py_replace_char :: "char \<Rightarrow> string \<Rightarrow> string" where
  \<comment> \<open>\<open>s.replace(c, "")\<close> for a one-character \<open>c\<close>.\<close>
  "py_replace_char c s = filter (\<lambda>d. d \<noteq> c) s"

definition is_digit :: "char \<Rightarrow> bool" where
  "is_digit c = (48 \<le> (of_char c :: nat) \<and> (of_char c :: nat) \<le> 57)"

fun digits_value :: "nat \<Rightarrow> bool \<Rightarrow> string \<Rightarrow> nat option" where
  \<comment> \<open>Decimal digits, a single underscore allowed between two digits; the flag says that
      the character before was a digit.\<close>
  "digits_value acc prev [] = (if prev then Some acc else None)"
| "digits_value acc prev (c # cs) =
     (if is_digit c then digits_value (10 * acc + (of_char c - 48)) True cs
      else if c = CHR ''_'' \<and> prev \<and> cs \<noteq> [] then digits_value acc False cs
      else None)"

definition py_int :: "string \<Rightarrow> int option" where
  \<comment> \<open>\<open>int(s)\<close>: None is the \<open>ValueError\<close>.\<close>
  "py_int s =
     (case py_strip s of
        [] \<Rightarrow> None
      | c # cs \<Rightarrow>
          if c = CHR ''-'' then map_option (\<lambda>n. - int n) (digits_value 0 False cs)
          else if c = CHR ''+'' then map_option int (digits_value 0 False cs)
          else map_option int (digits_value 0 False (c # cs)))"

function nat_digits :: "nat \<Rightarrow> string" where
  "nat_digits n =
     (if n < 10 then [char_of (48 + n)] else nat_digits (n div 10) @ [char_of (48 + n mod 10)])"
  by pat_completeness auto
termination
  by (relation "measure id") auto

definition py_str_int :: "int \<Rightarrow> string" where
  \<comment> \<open>\<open>str(i)\<close>, as the f-strings of the paths use it.\<close>
  "py_str_int i = (if i < 0 then CHR ''-'' # nat_digits (nat (- i)) else nat_digits (nat i))"

definition rsplit_underscore :: "string \<Rightarrow> (string \<times> string) option" where
  \<comment> \<open>\<open>a, b = s.rsplit("_", 1)\<close>: None is the failed unpacking of a one-element list.\<close>
  "rsplit_underscore s =
     (if CHR ''_'' \<in> set s
      then Some (rev (tl (dropWhile (\<lambda>c. c \<noteq> CHR ''_'') (rev s))),
                 rev (takeWhile (\<lambda>c. c \<noteq> CHR ''_'') (rev s)))
      else None)"

section \<open>parse\_stats.py\<close>

datatype error =
    FilenameError          \<comment> \<open>ValueError: the stem has no underscore\<close>
  | YearError              \<comment> \<open>ValueError of \<open>int(year_str)\<close>\<close>
  | UnknownStat string     \<comment> \<open>ValueError: the stat is not in \<open>STAT_SPEC\<close>\<close>
  | NoValueColumn string   \<comment> \<open>ValueError: no numeric candidate column\<close>
  | IndexError             \<comment> \<open>\<open>df.columns[0]\<close> of a table without columns\<close>
  | ReadError              \<comment> \<open>any exception of \<open>pd.read_csv\<close>\<close>
  | FileNotFoundError string
  | MissingKeyColumns string
  | MissingValueColumn string string
  | MergeKeyError
      \<comment> \<open>ValueError of \<open>pd.merge\<close>: key columns of object and of numeric dtype\<close>
  | NoData int "string list" "string list"
      \<comment> \<open>ValueError of \<open>build_for_year\<close>: the year, the skipped and the empty stats\<close>
  | HTTPError nat
  | RequestError           \<comment> \<open>any exception of \<open>requests.get\<close>\<close>

record stat_spec =
  output_col :: string
  hints :: "string list"

definition STAT_SPEC :: "(string \<times> stat_spec) list" where
  "STAT_SPEC =
    [(''sg_total'', \<lparr>output_col = ''sg_total'', hints = [''mean'', ''avg'', ''average'', ''sg:total'']\<rparr>),
     (''sg_ott'', \<lparr>output_col = ''sg_off_the_tee'', hints = [''mean'', ''avg'', ''average'']\<rparr>),
     (''sg_app'', \<lparr>output_col = ''sg_approach'', hints = [''mean'', ''avg'', ''average'']\<rparr>),
     (''sg_arg'', \<lparr>output_col = ''sg_around_green'', hints = [''mean'', ''avg'', ''average'']\<rparr>),
     (''sg_putt'', \<lparr>output_col = ''sg_putting'', hints = [''mean'', ''avg'', ''average'']\<rparr>),
     (''driving_distance'', \<lparr>output_col = ''driving_distance'', hints = [''avg'', ''average'', ''distance'']\<rparr>),
     (''driving_accuracy'', \<lparr>output_col = ''driving_accuracy'', hints = [''%'', ''pct'', ''accuracy'']\<rparr>),
     (''greens_in_regulation'', \<lparr>output_col = ''greens_in_regulation'', hints = [''%'', ''pct'', ''greens in reg'']\<rparr>),
     (''scoring_average'', \<lparr>output_col = ''scoring_average'', hints = [''avg'', ''average'', ''mean'']\<rparr>),
     (''money_earned'', \<lparr>output_col = ''money_earned'', hints = [''money'', ''earnings'', ''$'', ''amount'']\<rparr>),
     (''fedex_rank'', \<lparr>output_col = ''final_season_rank'',
        hints = [''rank'', ''points'', ''fedexcup'', ''strokes'', ''finish position'']\<rparr>)]"

definition normalize_col_name :: "string \<Rightarrow> string" where
  "normalize_col_name col = py_join '' '' (py_split [] (py_lower (py_strip col)))"

subsection \<open>Raw tables\<close>

text \<open>
  A raw table is what \<open>pd.read_csv\<close> returns for a raw file: the column labels and the
  rows in file order. A cell is missing (\<open>NaN\<close>), a text or a number; the type \<open>'v\<close> of
  the numbers (float64 and int64 values) is left open. A row gives the cell of each
  column. The position of a row in the table stands for its index label.

  Two functions of the libraries are parameters of the model: \<open>to_num\<close> is
  \<open>pd.to_numeric(..., errors="coerce")\<close> on one text (None when the text is no number, or
  reads as NaN), and \<open>render\<close> is \<open>str\<close> of a number.
\<close>

datatype 'v cell = NaN | Str string | Num 'v

record 'v raw_table =
  raw_columns :: "string list"
  raw_rows :: "(string \<Rightarrow> 'v cell) list"

definition row_of :: "(string \<times> 'v cell) list \<Rightarrow> string \<Rightarrow> 'v cell" where
  \<comment> \<open>A row written as the list of its labelled cells.\<close>
  "row_of cells col = (case map_of cells col of None \<Rightarrow> NaN | Some c \<Rightarrow> c)"

definition astype_str :: "('v \<Rightarrow> string) \<Rightarrow> 'v cell \<Rightarrow> string" where
  \<comment> \<open>\<open>Series.astype(str)\<close> on one cell (pandas 1.x and 2.x): a missing cell becomes the
      text \<open>nan\<close>.\<close>
  "astype_str render c = (case c of NaN \<Rightarrow> ''nan'' | Str s \<Rightarrow> s | Num v \<Rightarrow> render v)"

definition coerce_numeric :: "(string \<Rightarrow> 'v option) \<Rightarrow> ('v \<Rightarrow> string) \<Rightarrow> 'v cell \<Rightarrow> 'v option" where
  \<comment> \<open>\<open>pd.to_numeric(col.astype(str).str.replace(",", "").str.replace("$", "")
      .str.replace("%", "").str.strip(), errors="coerce")\<close> on one cell.\<close>
  "coerce_numeric to_num render c =
     to_num (py_strip (py_replace_char CHR ''%'' (py_replace_char CHR ''$''
       (py_replace_char CHR '','' (astype_str render c)))))"

definition find_player_name_column :: "string list \<Rightarrow> error + string" where
  "find_player_name_column cols =
     (let candidates = concat (map (\<lambda>col.
            let norm = normalize_col_name col in
            if sublist ''player'' norm \<and> \<not> sublist ''id'' norm then [(0::nat, col)]
            else if sublist ''name'' norm then [(1, col)]
            else []) cols)
      in if candidates \<noteq> [] then Inr (snd (hd (sort_key fst candidates)))
         else (case cols of [] \<Rightarrow> Inl IndexError | c # _ \<Rightarrow> Inr c))"

definition norm_map :: "string list \<Rightarrow> (string \<times> string) list" where
  \<comment> \<open>The dict \<open>{col: normalize_col_name(col) for col in df.columns}\<close> in insertion order.\<close>
  "norm_map cols = foldl (\<lambda>d col. AList.update col (normalize_col_name col) d) [] cols"

fun first_hint_match :: "string list \<Rightarrow> (string \<times> string) list \<Rightarrow> string option" where
  \<comment> \<open>\<open>for col, norm in norm_map.items(): for h in hints: if h in norm: return col\<close>\<close>
  "first_hint_match hs [] = None"
| "first_hint_match hs ((col, norm) # rest) =
     (if list_ex (\<lambda>h. sublist h norm) hs then Some col else first_hint_match hs rest)"

definition bad_keywords :: "string list" where
  "bad_keywords = [''rank'', ''this week'', ''last week'', ''event'', ''tournament'', ''round'', ''movement'']"

definition numeric_candidates ::
  "(string \<Rightarrow> 'v option) \<Rightarrow> ('v \<Rightarrow> string) \<Rightarrow> 'v raw_table \<Rightarrow> string \<Rightarrow> (string \<times> nat) list" where
  "numeric_candidates to_num render df player_col =
     concat (map (\<lambda>col.
        if col = player_col then []
        else if list_ex (\<lambda>b. sublist b (normalize_col_name col)) bad_keywords then []
        else (let non_null = length (filter (\<lambda>r. coerce_numeric to_num render (r col) \<noteq> None) (raw_rows df))
              in if non_null > 0 then [(col, non_null)] else []))
      (raw_columns df))"

definition find_value_column ::
  "(string \<Rightarrow> 'v option) \<Rightarrow> ('v \<Rightarrow> string) \<Rightarrow> 'v raw_table \<Rightarrow> string \<Rightarrow> error + string" where
  "find_value_column to_num render df stat_name =
     (case map_of STAT_SPEC stat_name of
        None \<Rightarrow> Inl (UnknownStat stat_name)
      | Some spec \<Rightarrow>
          (case first_hint_match (map py_lower (hints spec)) (norm_map (raw_columns df)) of
             Some col \<Rightarrow> Inr col
           | None \<Rightarrow>
               (case find_player_name_column (raw_columns df) of
                  Inl e \<Rightarrow> Inl e
                | Inr player_col \<Rightarrow>
                    (let cands = numeric_candidates to_num render df player_col
                     in if cands = [] then Inl (NoValueColumn stat_name)
                        else Inr (fst (hd (sort_key (\<lambda>x. - int (snd x)) cands)))))))"

subsection \<open>Tidy frames\<close>

record 'v tidy_row =
  t_index :: nat
  t_year :: int
  t_player :: "string option"
  t_value :: "'v option"

record 'v tidy_frame =
  t_col :: string
  t_rows :: "'v tidy_row list"

definition dropna :: "'v tidy_row list \<Rightarrow> 'v tidy_row list" where
  \<comment> \<open>\<open>out.dropna(subset=["player_name", output_col])\<close>\<close>
  "dropna rs = filter (\<lambda>r. t_player r \<noteq> None \<and> t_value r \<noteq> None) rs"

fun drop_duplicates :: "string option list \<Rightarrow> 'v tidy_row list \<Rightarrow> 'v tidy_row list" where
  \<comment> \<open>\<open>out.drop_duplicates(subset=["player_name"])\<close>, which keeps the first row of each
      name; the first argument holds the names already seen.\<close>
  "drop_duplicates seen [] = []"
| "drop_duplicates seen (r # rs) =
     (if t_player r \<in> set seen then drop_duplicates seen rs
      else r # drop_duplicates (t_player r # seen) rs)"

definition player_name_of :: "('v \<Rightarrow> string) \<Rightarrow> string \<Rightarrow> (string \<Rightarrow> 'v cell) \<Rightarrow> string" where
  \<comment> \<open>\<open>df_raw[player_col].astype(str).str.strip()\<close> on one row.\<close>
  "player_name_of render player_col r = py_strip (astype_str render (r player_col))"

definition tidy_rows_of ::
  "(string \<Rightarrow> 'v option) \<Rightarrow> ('v \<Rightarrow> string) \<Rightarrow> int \<Rightarrow> string \<Rightarrow> string \<Rightarrow>
     (string \<Rightarrow> 'v cell) list \<Rightarrow> 'v tidy_row list" where
  \<comment> \<open>\<open>pd.DataFrame({"year": year, "player_name": ..., output_col: value_series})\<close>\<close>
  "tidy_rows_of to_num render year player_col value_col rws =
     map (\<lambda>(i, r).
           \<lparr>t_index = i, t_year = year,
            t_player = Some (player_name_of render player_col r),
            t_value = coerce_numeric to_num render (r value_col)\<rparr>)
         (enumerate 0 rws)"

definition parse_one_file ::
  "(string \<Rightarrow> 'v option) \<Rightarrow> ('v \<Rightarrow> string) \<Rightarrow> string \<Rightarrow> error + 'v raw_table \<Rightarrow> error + 'v tidy_frame" where
  \<comment> \<open>The arguments are the stem of the path and the outcome of the chain of
      \<open>pd.read_csv\<close> calls on it.\<close>
  "parse_one_file to_num render stem file =
     (case rsplit_underscore stem of
        None \<Rightarrow> Inl FilenameError
      | Some (stat_name, year_str) \<Rightarrow>
     (case py_int year_str of
        None \<Rightarrow> Inl YearError
      | Some year \<Rightarrow>
     (case map_of STAT_SPEC stat_name of
        None \<Rightarrow> Inl (UnknownStat stat_name)
      | Some spec \<Rightarrow>
     (case file of
        Inl e \<Rightarrow> Inl e
      | Inr df_raw \<Rightarrow>
     (case find_player_name_column (raw_columns df_raw) of
        Inl e \<Rightarrow> Inl e
      | Inr player_col \<Rightarrow>
     (case find_value_column to_num render df_raw stat_name of
        Inl e \<Rightarrow> Inl e
      | Inr value_col \<Rightarrow>
          (let out = tidy_rows_of to_num render year player_col value_col (raw_rows df_raw)
           in Inr \<lparr>t_col = output_col spec,
                   t_rows = drop_duplicates [] (dropna out)\<rparr>)))))))"

definition hint_hit :: "string list \<Rightarrow> string \<Rightarrow> bool" where
  \<comment> \<open>Some hint occurs in the normalized name of the column.\<close>
  "hint_hit hs col = list_ex (\<lambda>h. sublist h (normalize_col_name col)) hs"

fun spec_first_hint_column :: "string list \<Rightarrow> string list \<Rightarrow> string option" where
  \<comment> \<open>The rule in the words of the specification, for comparison with
      \<^const>\<open>first_hint_match\<close>: the hints are tried in the order of the hint list, and
      the first hint that occurs in some normalized column name selects that column.\<close>
  "spec_first_hint_column [] cols = None"
| "spec_first_hint_column (h # hs) cols =
     (case find (\<lambda>col. sublist h (normalize_col_name col)) cols of
        Some col \<Rightarrow> Some col
      | None \<Rightarrow> spec_first_hint_column hs cols)"

section \<open>build\_master.py\<close>

definition STAT_COLUMNS :: "(string \<times> string) list" where
  "STAT_COLUMNS =
    [(''sg_total'', ''sg_total''),
     (''sg_ott'', ''sg_off_the_tee''),
     (''sg_app'', ''sg_approach''),
     (''sg_arg'', ''sg_around_green''),
     (''sg_putt'', ''sg_putting''),
     (''driving_distance'', ''driving_distance''),
     (''driving_accuracy'', ''driving_accuracy''),
     (''greens_in_regulation'', ''greens_in_regulation''),
     (''scoring_average'', ''scoring_average''),
     (''money_earned'', ''money_earned''),
     (''fedex_rank'', ''final_season_rank'')]"

subsection \<open>Intermediate files and frames\<close>

text \<open>
  The directory of intermediate files is a list of entries: the stem of a file name and
  what \<open>pd.read_csv\<close> does on the file, which is to raise or to return a table. A stem
  without entry is a path that does not exist. The tables are typed as the files that the
  normalizer writes are read: the \<open>year\<close> cell of a row is an integer and every stat cell
  is a number or missing. For the \<open>player_name\<close> column \<open>pd.read_csv\<close> infers the dtype
  from the file: \<open>object\<close>, with texts in the cells, or a numeric dtype (int64, float64),
  with numbers in the cells, when every name in the file reads as a number. The type \<open>'n\<close>
  of these numbers is left open. A file whose names are all \<open>True\<close> or \<open>False\<close>, for
  which \<open>pd.read_csv\<close> infers the dtype bool, has no table in this type: the statements
  are about directories without such a file. \<open>csv_columns\<close> are the labels of the columns
  that the file has.
\<close>

datatype name_dtype = ObjectDtype | NumericDtype

datatype 'n name = Text string | Number 'n

record ('n, 'v) csv_row =
  c_year :: int
  c_player :: "'n name option"
  c_vals :: "string \<Rightarrow> 'v option"

record ('n, 'v) csv_table =
  csv_columns :: "string list"
  csv_name_dtype :: name_dtype
  csv_rows :: "('n, 'v) csv_row list"

type_synonym ('n, 'v) inter_dir = "(string \<times> (error + ('n, 'v) csv_table)) list"

text \<open>
  A frame of the merger: the labels of its columns, in order, the dtype of its
  \<open>player_name\<close> column, and its rows. The key cells of a row are never missing
  (\<open>load_stat_for_year\<close> filters the rows without player name); \<open>s_vals r c\<close> is the cell
  of the value column \<open>c\<close>, None when missing.
\<close>

record ('n, 'v) season_row =
  s_year :: int
  s_player :: "'n name"
  s_vals :: "string \<Rightarrow> 'v option"

record ('n, 'v) frame =
  columns :: "string list"
  name_dtype :: name_dtype
  rows :: "('n, 'v) season_row list"

definition key_of :: "('n, 'v) season_row \<Rightarrow> int \<times> 'n name" where
  "key_of r = (s_year r, s_player r)"

definition inter_path :: "string \<Rightarrow> int \<Rightarrow> string" where
  \<comment> \<open>The stem of \<open>INTER_DIR / f"{stat_name}_{year}.csv"\<close>.\<close>
  "inter_path stat_name year = stat_name @ ''_'' @ py_str_int year"

definition load_stat_for_year ::
  "('n, 'v) inter_dir \<Rightarrow> string \<Rightarrow> int \<Rightarrow> string \<Rightarrow> error + ('n, 'v) frame option" where
  "load_stat_for_year fs stat_name year col_name =
     (let path = inter_path stat_name year in
      case map_of fs path of
        None \<Rightarrow> Inl (FileNotFoundError path)
      | Some (Inl e) \<Rightarrow> Inl e
      | Some (Inr df) \<Rightarrow>
          if csv_rows df = [] then Inr None
          else if ''year'' \<notin> set (csv_columns df) \<or> ''player_name'' \<notin> set (csv_columns df)
            then Inl (MissingKeyColumns path)
          else if col_name \<notin> set (csv_columns df) then Inl (MissingValueColumn path col_name)
          else (let kept = List.map_filter (\<lambda>r.
                        case c_player r of
                          None \<Rightarrow> None
                        | Some p \<Rightarrow>
                            Some \<lparr>s_year = c_year r, s_player = p,
                                  s_vals = (\<lambda>c. if c = col_name then c_vals r c else None)\<rparr>)
                      (csv_rows df)
                in if kept = [] then Inr None
                   else Inr (Some \<lparr>columns = [''year'', ''player_name'', col_name],
                                    name_dtype = csv_name_dtype df, rows = kept\<rparr>)))"

subsection \<open>The operations of pandas on frames\<close>

definition join_rows ::
  "string list \<Rightarrow> ('n, 'v) season_row \<Rightarrow> ('n, 'v) season_row \<Rightarrow> ('n, 'v) season_row" where
  "join_rows lcols l r = l\<lparr>s_vals := (\<lambda>c. if c \<in> set lcols then s_vals l c else s_vals r c)\<rparr>"

definition left_only :: "string list \<Rightarrow> ('n, 'v) season_row \<Rightarrow> ('n, 'v) season_row" where
  "left_only lcols l = l\<lparr>s_vals := (\<lambda>c. if c \<in> set lcols then s_vals l c else None)\<rparr>"

definition right_only :: "string list \<Rightarrow> ('n, 'v) season_row \<Rightarrow> ('n, 'v) season_row" where
  "right_only lcols r = r\<lparr>s_vals := (\<lambda>c. if c \<in> set lcols then None else s_vals r c)\<rparr>"

definition merge_outer :: "('n, 'v) frame \<Rightarrow> ('n, 'v) frame \<Rightarrow> ('n, 'v) frame" where
  \<comment> \<open>The frame that \<open>pd.merge(left, right, on=["year", "player_name"], how="outer")\<close>
      returns when it accepts the key columns, for frames whose value columns do not
      overlap: every left row with each right row of its key, or with missing cells when
      there is none, then the right rows whose key no left row has. The order of the rows
      is set anew by the sort that ends \<open>build_for_year\<close>.\<close>
  "merge_outer left right =
     \<lparr>columns = columns left @ filter (\<lambda>c. c \<noteq> ''year'' \<and> c \<noteq> ''player_name'') (columns right),
      name_dtype = name_dtype left,
      rows =
        concat (map (\<lambda>l.
            case filter (\<lambda>r. key_of r = key_of l) (rows right) of
              [] \<Rightarrow> [left_only (columns left) l]
            | m # ms \<Rightarrow> map (join_rows (columns left) l) (m # ms))
          (rows left))
        @ map (right_only (columns left))
            (filter (\<lambda>r. key_of r \<notin> set (map key_of (rows left))) (rows right))\<rparr>"

definition pd_merge :: "('n, 'v) frame \<Rightarrow> ('n, 'v) frame \<Rightarrow> error + ('n, 'v) frame" where
  \<comment> \<open>\<open>pd.merge\<close> with its check of the key columns: a \<open>player_name\<close> column of texts
      on one side and of numbers on the other is a \<open>ValueError\<close> (the \<open>year\<close> columns are
      both int64).\<close>
  "pd_merge left right =
     (if name_dtype left \<noteq> name_dtype right then Inl MergeKeyError
      else Inr (merge_outer left right))"

fun reduce_merge :: "('n, 'v) frame \<Rightarrow> ('n, 'v) frame list \<Rightarrow> error + ('n, 'v) frame" where
  \<comment> \<open>\<open>reduce(lambda left, right: pd.merge(left, right, ...), frames)\<close> on a list with
      the first frame \<open>left\<close>.\<close>
  "reduce_merge left [] = Inr left"
| "reduce_merge left (right # rest) =
     (case pd_merge left right of
        Inl e \<Rightarrow> Inl e
      | Inr merged \<Rightarrow> reduce_merge merged rest)"

definition assign_column ::
  "string \<Rightarrow> (('n, 'v) season_row \<Rightarrow> 'v option) \<Rightarrow> ('n, 'v) frame \<Rightarrow> ('n, 'v) frame" where
  \<comment> \<open>\<open>df[col] = ...\<close>: a new column goes to the end.\<close>
  "assign_column col f df =
     df\<lparr>columns := (if col \<in> set (columns df) then columns df else columns df @ [col]),
        rows := map (\<lambda>r. r\<lparr>s_vals := (s_vals r)(col := f r)\<rparr>) (rows df)\<rparr>"

definition add_cells :: "('v \<Rightarrow> 'v \<Rightarrow> 'v option) \<Rightarrow> 'v option \<Rightarrow> 'v option \<Rightarrow> 'v option" where
  \<comment> \<open>The sum of two cells; \<open>fadd\<close> is the addition of float64, None when it gives NaN.\<close>
  "add_cells fadd a b =
     (case a of None \<Rightarrow> None | Some x \<Rightarrow> (case b of None \<Rightarrow> None | Some y \<Rightarrow> fadd x y))"

definition with_tee_to_green :: "('v \<Rightarrow> 'v \<Rightarrow> 'v option) \<Rightarrow> ('n, 'v) frame \<Rightarrow> ('n, 'v) frame" where
  "with_tee_to_green fadd merged =
     (if list_all (\<lambda>c. c \<in> set (columns merged)) [''sg_off_the_tee'', ''sg_approach'', ''sg_around_green'']
      then assign_column ''sg_tee_to_green''
             (\<lambda>r. add_cells fadd (add_cells fadd (s_vals r ''sg_off_the_tee'') (s_vals r ''sg_approach''))
                     (s_vals r ''sg_around_green''))
             merged
      else merged)"

definition expected_cols :: "string list" where
  "expected_cols =
     [''year'', ''player_name'', ''sg_total'', ''sg_off_the_tee'', ''sg_approach'', ''sg_around_green'',
      ''sg_putting'', ''driving_distance'', ''driving_accuracy'', ''greens_in_regulation'',
      ''scoring_average'', ''money_earned'', ''final_season_rank'', ''sg_tee_to_green'']"

fun fill_missing :: "string list \<Rightarrow> ('n, 'v) frame \<Rightarrow> ('n, 'v) frame" where
  \<comment> \<open>\<open>for col in expected_cols: if col not in merged.columns: merged[col] = None\<close>\<close>
  "fill_missing [] merged = merged"
| "fill_missing (col # cols) merged =
     fill_missing cols
       (if col \<notin> set (columns merged) then assign_column col (\<lambda>r. None) merged else merged)"

datatype key_error = KeyError string

definition select_columns :: "string list \<Rightarrow> ('n, 'v) frame \<Rightarrow> key_error + ('n, 'v) frame" where
  \<comment> \<open>\<open>df[cols]\<close>, which raises \<open>KeyError\<close> on a column that the frame does not have.\<close>
  "select_columns cols df =
     (case find (\<lambda>c. c \<notin> set (columns df)) cols of
        Some c \<Rightarrow> Inl (KeyError c)
      | None \<Rightarrow>
          Inr (df\<lparr>columns := cols,
                  rows := map (\<lambda>r. r\<lparr>s_vals := (\<lambda>c. if c \<in> set cols then s_vals r c else None)\<rparr>)
                            (rows df)\<rparr>))"

definition name_rank :: "'n name \<Rightarrow> nat \<times> string \<times> 'n option" where
  \<comment> \<open>The place of a name in the order of a sorted column: numbers by their value, texts
      as Python compares strings. A column holds names of one kind only.\<close>
  "name_rank p = (case p of Number n \<Rightarrow> (0, [], Some n) | Text s \<Rightarrow> (1, s, None))"

definition sort_rank :: "('n, 'v) season_row \<Rightarrow> int \<times> nat \<times> string \<times> 'n option" where
  "sort_rank r = (s_year r, name_rank (s_player r))"

definition sort_values :: "('n :: linorder, 'v) frame \<Rightarrow> ('n, 'v) frame" where
  \<comment> \<open>\<open>df.sort_values(["year", "player_name"]).reset_index(drop=True)\<close>\<close>
  "sort_values df = df\<lparr>rows := sort_key sort_rank (rows df)\<rparr>"

definition concat_frames :: "('n, 'v) frame list \<Rightarrow> ('n, 'v) frame" where
  \<comment> \<open>\<open>pd.concat(dfs, ignore_index=True)\<close>: the union of the columns in the order of
      their first appearance, and the rows of the frames one after the other. The names
      stay numeric when they are so in every frame.\<close>
  "concat_frames dfs =
     \<lparr>columns = foldl (\<lambda>acc cs. acc @ filter (\<lambda>c. c \<notin> set acc) cs) [] (map columns dfs),
      name_dtype = (if list_all (\<lambda>df. name_dtype df = NumericDtype) dfs then NumericDtype
                    else ObjectDtype),
      rows = concat (map rows dfs)\<rparr>"

subsection \<open>build\_for\_year and main\<close>

record ('n, 'v) load_state =
  frames :: "('n, 'v) frame list"
  stats_loaded :: "string list"
  stats_skipped :: "string list"
  stats_empty :: "string list"

fun load_all ::
  "('n, 'v) inter_dir \<Rightarrow> int \<Rightarrow> (string \<times> string) list \<Rightarrow> ('n, 'v) load_state \<Rightarrow> ('n, 'v) load_state" where
  \<comment> \<open>The loop over \<open>STAT_COLUMNS.items()\<close>; both \<open>except\<close> clauses put the stat on
      \<open>stats_skipped\<close>.\<close>
  "load_all fs year [] st = st"
| "load_all fs year ((stat_name, col_name) # rest) st =
     (case load_stat_for_year fs stat_name year col_name of
        Inr None \<Rightarrow> load_all fs year rest (st\<lparr>stats_empty := stats_empty st @ [stat_name]\<rparr>)
      | Inr (Some df_stat) \<Rightarrow>
          load_all fs year rest
            (st\<lparr>frames := frames st @ [df_stat], stats_loaded := stats_loaded st @ [stat_name]\<rparr>)
      | Inl e \<Rightarrow> load_all fs year rest (st\<lparr>stats_skipped := stats_skipped st @ [stat_name]\<rparr>))"

datatype build_error = Build error | Key key_error

definition build_for_year ::
  "('v \<Rightarrow> 'v \<Rightarrow> 'v option) \<Rightarrow> ('n :: linorder, 'v) inter_dir \<Rightarrow> int \<Rightarrow> build_error + ('n, 'v) frame" where
  \<comment> \<open>The merge is outside the \<open>try\<close> of the loop: its exception leaves the function.\<close>
  "build_for_year fadd fs year =
     (let st = load_all fs year STAT_COLUMNS
                 \<lparr>frames = [], stats_loaded = [], stats_skipped = [], stats_empty = []\<rparr>
      in case frames st of
           [] \<Rightarrow> Inl (Build (NoData year (stats_skipped st) (stats_empty st)))
         | f # rest \<Rightarrow>
             (case reduce_merge f rest of
                Inl e \<Rightarrow> Inl (Build e)
              | Inr merged \<Rightarrow>
                  (let merged = with_tee_to_green fadd merged;
                       merged = fill_missing expected_cols merged
                   in case select_columns expected_cols merged of
                        Inl e \<Rightarrow> Inl (Key e)
                      | Inr merged \<Rightarrow> Inr (sort_values merged))))"

definition discover_years :: "string list \<Rightarrow> int list" where
  \<comment> \<open>The years of the stems of \<open>INTER_DIR.glob("*.csv")\<close>, as \<open>sorted(years)\<close> of the set;
      a stem that does not split or whose last part is no integer is passed over.\<close>
  "discover_years stems =
     sort (remdups (List.map_filter (\<lambda>stem.
        case rsplit_underscore stem of
          None \<Rightarrow> None
        | Some (_, year_str) \<Rightarrow> py_int year_str) stems))"

fun build_years ::
  "('v \<Rightarrow> 'v \<Rightarrow> 'v option) \<Rightarrow> ('n :: linorder, 'v) inter_dir \<Rightarrow> int list \<Rightarrow>
     (string \<times> ('n, 'v) frame) list \<Rightarrow> ('n, 'v) frame list \<Rightarrow>
     (string \<times> ('n, 'v) frame) list \<times> (build_error + ('n, 'v) frame list)" where
  \<comment> \<open>The loop of \<open>main\<close> over the years; the fourth argument lists the files written so
      far, the fifth is \<open>all_years\<close>. An exception of \<open>build_for_year\<close> ends the run and
      leaves the files already written.\<close>
  "build_years fadd fs [] written all_years = (written, Inr all_years)"
| "build_years fadd fs (y # ys) written all_years =
     (case build_for_year fadd fs y of
        Inl e \<Rightarrow> (written, Inl e)
      | Inr df_year \<Rightarrow>
          build_years fadd fs ys (written @ [(''master_'' @ py_str_int y, df_year)])
            (all_years @ [df_year]))"

definition main ::
  "('v \<Rightarrow> 'v \<Rightarrow> 'v option) \<Rightarrow> ('n :: linorder, 'v) inter_dir \<Rightarrow>
     (string \<times> ('n, 'v) frame) list \<times> build_error option" where
  \<comment> \<open>The result lists the files written to the directory of processed files, in the
      order of the writes, and gives the exception that ended the run, if any.\<close>
  "main fadd fs =
     (let years = discover_years (map fst fs) in
      if years = [] then ([], None)
      else (case build_years fadd fs years [] [] of
              (written, Inl e) \<Rightarrow> (written, Some e)
            | (written, Inr all_years) \<Rightarrow>
                (written @ [(''master_player_seasons'', concat_frames all_years)], None)))"

subsection \<open>From the normalizer to the merger\<close>




section \<open>download\_stats.py\<close>

text \<open>
  The response of \<open>requests.get\<close> is an input of the model: its status code and its
  body. The directory of raw files maps the stem of a path to the bytes of the file.
\<close>

record response =
  status_code :: nat
  content :: string

definition raise_for_status :: "response \<Rightarrow> error option" where
  \<comment> \<open>\<open>Response.raise_for_status\<close> of the requests library: an \<open>HTTPError\<close> for the client
      errors (4xx) and the server errors (5xx), nothing otherwise.\<close>
  "raise_for_status resp =
     (if 400 \<le> status_code resp \<and> status_code resp < 600 then Some (HTTPError (status_code resp))
      else None)"

definition download_stat_csv ::
  "(string \<rightharpoonup> string) \<Rightarrow> string \<Rightarrow> string \<Rightarrow> int \<Rightarrow> error + response \<Rightarrow>
     (error + unit) \<times> (string \<rightharpoonup> string)" where
  \<comment> \<open>The last argument is the outcome of \<open>requests.get(url, timeout=30)\<close>. The result is
      the exception or the normal return, and the directory of raw files afterwards.\<close>
  "download_stat_csv raw_dir stat_name stat_id year got =
     (let out_path = stat_name @ ''_'' @ py_str_int year in
      case got of
        Inl e \<Rightarrow> (Inl e, raw_dir)
      | Inr resp \<Rightarrow>
          (case raise_for_status resp of
             Some e \<Rightarrow> (Inl e, raw_dir)
           | None \<Rightarrow> (Inr (), raw_dir(out_path \<mapsto> content resp))))"

definition is_success :: "nat \<Rightarrow> bool" where
  \<comment> \<open>A successful status in the words of the specification, which calls any status
      outside 2xx a failure of the request.\<close>
  "is_success status = (200 \<le> status \<and> status < 300)"

section \<open>Notions used in the statements\<close>

definition keys :: "('n, 'v) frame \<Rightarrow> (int \<times> 'n name) set" where
  \<comment> \<open>The (year, player name) pairs of the rows of a frame.\<close>
  "keys df = key_of ` set (rows df)"

definition agrees :: "('n, 'v) frame \<Rightarrow> ('n, 'v) frame \<Rightarrow> string \<Rightarrow> bool" where
  \<comment> \<open>The merged frame \<open>m\<close> agrees with the frame \<open>f\<close> of a stat on the column \<open>c\<close>: a
      row of \<open>m\<close> has in \<open>c\<close> the cell of a row of \<open>f\<close> of the same key, or no row of
      \<open>f\<close> has its key and the cell is missing.\<close>
  "agrees m f c \<longleftrightarrow>
     (\<forall>r\<in>set (rows m).
        (\<exists>q\<in>set (rows f). key_of q = key_of r \<and> s_vals r c = s_vals q c) \<or>
        (key_of r \<notin> keys f \<and> s_vals r c = None))"

definition left_part ::
  "('n, 'v) frame \<Rightarrow> ('n, 'v) frame \<Rightarrow> ('n, 'v) season_row \<Rightarrow> ('n, 'v) season_row list" where
  \<comment> \<open>The rows that \<^const>\<open>merge_outer\<close> makes of one left row.\<close>
  "left_part left right l =
     (case filter (\<lambda>r. key_of r = key_of l) (rows right) of
        [] \<Rightarrow> [left_only (columns left) l]
      | m # ms \<Rightarrow> map (join_rows (columns left) l) (m # ms))"

definition yields_data :: "('n, 'v) inter_dir \<Rightarrow> int \<Rightarrow> string \<times> string \<Rightarrow> bool" where
  \<comment> \<open>The stat (name and column) yields usable data for the year:
      \<open>load_stat_for_year\<close> returns a frame.\<close>
  "yields_data fs year sc =
     (case load_stat_for_year fs (fst sc) year (snd sc) of Inr (Some df) \<Rightarrow> True | _ \<Rightarrow> False)"

definition load_raises :: "('n, 'v) inter_dir \<Rightarrow> int \<Rightarrow> string \<times> string \<Rightarrow> bool" where
  \<comment> \<open>The file of the stat is missing or fails to load.\<close>
  "load_raises fs year sc = isl (load_stat_for_year fs (fst sc) year (snd sc))"

definition load_empty :: "('n, 'v) inter_dir \<Rightarrow> int \<Rightarrow> string \<times> string \<Rightarrow> bool" where
  \<comment> \<open>The file of the stat is empty, at once or after the filter on the player name.\<close>
  "load_empty fs year sc =
     (case load_stat_for_year fs (fst sc) year (snd sc) of Inr None \<Rightarrow> True | _ \<Rightarrow> False)"

definition loaded_frames ::
  "('n, 'v) inter_dir \<Rightarrow> int \<Rightarrow> (string \<times> string) list \<Rightarrow> (string \<times> ('n, 'v) frame) list" where
  \<comment> \<open>The frames that the loop of \<open>build_for_year\<close> collects, each with its stat column.\<close>
  "loaded_frames fs year stats =
     concat (map (\<lambda>sc. case load_stat_for_year fs (fst sc) year (snd sc) of
                          Inr (Some df) \<Rightarrow> [(snd sc, df)] | _ \<Rightarrow> []) stats)"

definition loaded_dtypes :: "('n, 'v) inter_dir \<Rightarrow> int \<Rightarrow> name_dtype list" where
  \<comment> \<open>The dtypes of the \<open>player_name\<close> columns of the files that yield data for the
      year, in the order of \<open>STAT_COLUMNS\<close>.\<close>
  "loaded_dtypes fs year = map (\<lambda>p. name_dtype (snd p)) (loaded_frames fs year STAT_COLUMNS)"

definition names_compatible :: "('n, 'v) inter_dir \<Rightarrow> int \<Rightarrow> bool" where
  \<comment> \<open>These dtypes are all the same: all the files have texts for names, or all have
      numbers.\<close>
  "names_compatible fs year =
     (case loaded_dtypes fs year of [] \<Rightarrow> True | d # ds \<Rightarrow> list_all (\<lambda>e. e = d) ds)"

definition stat_frame :: "string \<times> ('n, 'v) frame \<Rightarrow> bool" where
  \<comment> \<open>The shape of a frame of \<open>load_stat_for_year\<close>: the two key columns and one stat
      column.\<close>
  "stat_frame p \<longleftrightarrow>
     columns (snd p) = [''year'', ''player_name'', fst p] \<and> fst p \<noteq> ''year'' \<and> fst p \<noteq> ''player_name''"

definition finish :: "('v \<Rightarrow> 'v \<Rightarrow> 'v option) \<Rightarrow> ('n :: linorder, 'v) frame \<Rightarrow> ('n, 'v) frame" where
  \<comment> \<open>The steps of \<open>build_for_year\<close> after the merge, when the selection of the columns
      does not raise.\<close>
  "finish fadd merged =
     sort_values
       ((fill_missing expected_cols (with_tee_to_green fadd merged))
          \<lparr>columns := expected_cols,
           rows := map (\<lambda>r. r\<lparr>s_vals := (\<lambda>c. if c \<in> set expected_cols then s_vals r c else None)\<rparr>)
                     (rows (fill_missing expected_cols (with_tee_to_green fadd merged)))\<rparr>)"

definition finish_row ::
  "('v \<Rightarrow> 'v \<Rightarrow> 'v option) \<Rightarrow> string list \<Rightarrow> ('n, 'v) season_row \<Rightarrow> ('n, 'v) season_row" where
  \<comment> \<open>What these steps make of one row of a merged frame with the columns \<open>cols\<close>.\<close>
  "finish_row fadd cols r =
     r\<lparr>s_vals := (\<lambda>c.
         if c \<notin> set expected_cols then None
         else if c = ''sg_tee_to_green'' \<and>
                 list_all (\<lambda>c. c \<in> set cols) [''sg_off_the_tee'', ''sg_approach'', ''sg_around_green'']
           then add_cells fadd (add_cells fadd (s_vals r ''sg_off_the_tee'') (s_vals r ''sg_approach''))
                  (s_vals r ''sg_around_green'')
         else if c \<in> set cols then s_vals r c else None)\<rparr>"



section \<open>Example inputs\<close>

text \<open>
  The examples read integers only: \<open>to_num\<close> is \<^const>\<open>py_int\<close>, \<open>render\<close> is
  \<^const>\<open>py_str_int\<close>, and the addition is that of the integers. The reader of the
  examples knows texts and integers as names: a column whose names all read as integers
  is numeric.
\<close>

definition int_add :: "int \<Rightarrow> int \<Rightarrow> int option" where
  "int_add x y = Some (x + y)"





definition ex_avg_mean_table :: "int raw_table" where
  "ex_avg_mean_table = \<lparr>raw_columns = [''AVG'', ''MEAN''], raw_rows = []\<rparr>"

definition ex_null_player_table :: "int raw_table" where
  "ex_null_player_table =
     \<lparr>raw_columns = [''PLAYER'', ''AVG''],
      raw_rows = [row_of [(''PLAYER'', NaN), (''AVG'', Str ''15'')]]\<rparr>"

definition ex_repeated_player_table :: "int raw_table" where
  "ex_repeated_player_table =
     \<lparr>raw_columns = [''PLAYER'', ''AVG''],
      raw_rows = [row_of [(''PLAYER'', Str ''Tiger''), (''AVG'', Str ''abc'')],
                  row_of [(''PLAYER'', Str ''Tiger''), (''AVG'', Str ''15'')]]\<rparr>"



definition vals_of :: "(string \<times> 'v) list \<Rightarrow> string \<Rightarrow> 'v option" where
  \<comment> \<open>The value cells of a row written as a list.\<close>
  "vals_of cells = map_of cells"

definition ex_sg_total_table :: "(int, int) csv_table" where
  "ex_sg_total_table =
     \<lparr>csv_columns = [''year'', ''player_name'', ''sg_total''],
      csv_name_dtype = ObjectDtype,
      csv_rows = [\<lparr>c_year = 2024, c_player = Some (Text ''Tiger''), c_vals = vals_of [(''sg_total'', 5)]\<rparr>,
                  \<lparr>c_year = 2024, c_player = Some (Text ''Rory''), c_vals = vals_of [(''sg_total'', 7)]\<rparr>]\<rparr>"

definition ex_sg_ott_table :: "(int, int) csv_table" where
  "ex_sg_ott_table =
     \<lparr>csv_columns = [''year'', ''player_name'', ''sg_off_the_tee''],
      csv_name_dtype = ObjectDtype,
      csv_rows = [\<lparr>c_year = 2024, c_player = Some (Text ''Tiger''), c_vals = vals_of [(''sg_off_the_tee'', 2)]\<rparr>]\<rparr>"

definition ex_sg_ott_numeric_table :: "(int, int) csv_table" where
  \<comment> \<open>A file whose names are all numbers: \<open>pd.read_csv\<close> types the column as int64.\<close>
  "ex_sg_ott_numeric_table =
     \<lparr>csv_columns = [''year'', ''player_name'', ''sg_off_the_tee''],
      csv_name_dtype = NumericDtype,
      csv_rows = [\<lparr>c_year = 2024, c_player = Some (Number 1), c_vals = vals_of [(''sg_off_the_tee'', 2)]\<rparr>]\<rparr>"

definition ex_sg_total_2023_table :: "(int, int) csv_table" where
  "ex_sg_total_2023_table =
     \<lparr>csv_columns = [''year'', ''player_name'', ''sg_total''],
      csv_name_dtype = ObjectDtype,
      csv_rows = [\<lparr>c_year = 2023, c_player = Some (Text ''Tiger''), c_vals = vals_of [(''sg_total'', 3)]\<rparr>,
                  \<lparr>c_year = 2023, c_player = Some (Text ''Jon''), c_vals = vals_of [(''sg_total'', 4)]\<rparr>]\<rparr>"

definition ex_two_stats_dir :: "(int, int) inter_dir" where
  \<comment> \<open>Intermediate files of two stats for 2024; the files of the other nine are missing.\<close>
  "ex_two_stats_dir = [(''sg_total_2024'', Inr ex_sg_total_table), (''sg_ott_2024'', Inr ex_sg_ott_table)]"

definition ex_mixed_names_dir :: "(int, int) inter_dir" where
  \<comment> \<open>Intermediate files of two stats for 2024, one with texts and one with numbers for
      names; the files of the other nine are missing.\<close>
  "ex_mixed_names_dir =
     [(''sg_total_2024'', Inr ex_sg_total_table), (''sg_ott_2024'', Inr ex_sg_ott_numeric_table)]"

definition ex_two_years_dir :: "(int, int) inter_dir" where
  \<comment> \<open>Intermediate files of two years, the later year listed first.\<close>
  "ex_two_years_dir =
     [(''sg_total_2024'', Inr ex_sg_total_table), (''sg_ott_2024'', Inr ex_sg_ott_table),
      (''sg_total_2023'', Inr ex_sg_total_2023_table)]"

definition ex_empty_file_dir :: "(int, int) inter_dir" where
  \<comment> \<open>One intermediate file of 2024, with a header and no rows.\<close>
  "ex_empty_file_dir =
     [(''sg_total_2024'',
       Inr \<lparr>csv_columns = [''year'', ''player_name'', ''sg_total''], csv_name_dtype = ObjectDtype,
            csv_rows = []\<rparr>)]"

section \<open>Properties of the normalizer\<close>

subsection \<open>drop\_duplicates\<close>

lemma drop_duplicates_subset: "set (drop_duplicates seen rs) \<subseteq> set rs"
  by (induction rs arbitrary: seen) auto

lemma drop_duplicates_unseen:
  "r \<in> set (drop_duplicates seen rs) \<Longrightarrow> t_player r \<notin> set seen"
proof (induction rs arbitrary: seen)
  case Nil
  then show ?case by simp
next
  case (Cons x xs)
  show ?case
  proof (cases "t_player x \<in> set seen")
    case True
    with Cons show ?thesis by simp
  next
    case False
    with Cons.prems have "r = x \<or> r \<in> set (drop_duplicates (t_player x # seen) xs)" by simp
    then show ?thesis
    proof
      assume "r = x"
      with False show ?thesis by simp
    next
      assume "r \<in> set (drop_duplicates (t_player x # seen) xs)"
      then have "t_player r \<notin> set (t_player x # seen)" by (rule Cons.IH)
      then show ?thesis by simp
    qed
  qed
qed

lemma drop_duplicates_distinct: "distinct (map t_player (drop_duplicates seen rs))"
proof (induction rs arbitrary: seen)
  case Nil
  show ?case by simp
next
  case (Cons r rs)
  have "t_player r \<notin> t_player ` set (drop_duplicates (t_player r # seen) rs)"
  proof
    assume "t_player r \<in> t_player ` set (drop_duplicates (t_player r # seen) rs)"
    then obtain q where "q \<in> set (drop_duplicates (t_player r # seen) rs)" "t_player q = t_player r"
      by auto
    then show False using drop_duplicates_unseen [of q "t_player r # seen" rs] by simp
  qed
  with Cons show ?case by simp
qed

lemma drop_duplicates_players:
  "t_player ` set (drop_duplicates seen rs) = t_player ` set rs - set seen"
  by (induction rs arbitrary: seen) auto

lemma drop_duplicates_first:
  assumes "sorted_wrt (\<lambda>a b. t_index a < t_index b) rs"
    and "r \<in> set (drop_duplicates seen rs)" and "q \<in> set rs" and "t_player q = t_player r"
  shows "t_index r \<le> t_index q"
  using assms
proof (induction rs arbitrary: seen)
  case Nil
  then show ?case by simp
next
  case (Cons x xs)
  show ?case
  proof (cases "t_player x \<in> set seen")
    case True
    with Cons.prems have r: "r \<in> set (drop_duplicates seen xs)" by simp
    then have "t_player r \<notin> set seen" by (rule drop_duplicates_unseen)
    with True Cons.prems have "q \<in> set xs" by auto
    with Cons r show ?thesis by auto
  next
    case False
    with Cons.prems have "r = x \<or> r \<in> set (drop_duplicates (t_player x # seen) xs)" by simp
    then show ?thesis
    proof
      assume "r = x"
      with Cons.prems show ?thesis by auto
    next
      assume r: "r \<in> set (drop_duplicates (t_player x # seen) xs)"
      then have "t_player r \<noteq> t_player x" using drop_duplicates_unseen by fastforce
      with Cons.prems have "q \<in> set xs" by auto
      with Cons r show ?thesis by auto
    qed
  qed
qed

subsection \<open>tidy\_rows\_of\<close>

lemma tidy_rows_of_nth:
  "i < length rws \<Longrightarrow>
   tidy_rows_of to_num render year pc vc rws ! i =
     \<lparr>t_index = i, t_year = year, t_player = Some (player_name_of render pc (rws ! i)),
      t_value = coerce_numeric to_num render ((rws ! i) vc)\<rparr>"
  by (simp add: tidy_rows_of_def nth_enumerate_eq)

lemma length_tidy_rows_of [simp]:
  "length (tidy_rows_of to_num render year pc vc rws) = length rws"
  by (simp add: tidy_rows_of_def)

lemma tidy_rows_of_sorted:
  "sorted_wrt (\<lambda>a b. t_index a < t_index b) (tidy_rows_of to_num render year pc vc rws)"
  by (simp add: sorted_wrt_iff_nth_less tidy_rows_of_nth)

lemma tidy_rows_of_mem:
  "r \<in> set (tidy_rows_of to_num render year pc vc rws) \<longleftrightarrow>
   t_index r < length rws \<and>
   r = \<lparr>t_index = t_index r, t_year = year,
        t_player = Some (player_name_of render pc (rws ! t_index r)),
        t_value = coerce_numeric to_num render ((rws ! t_index r) vc)\<rparr>"
  (is "?L \<longleftrightarrow> ?R")
proof
  assume ?L
  then obtain i where "i < length rws" "r = tidy_rows_of to_num render year pc vc rws ! i"
    by (auto simp: in_set_conv_nth)
  then show ?R by (simp add: tidy_rows_of_nth)
next
  assume ?R
  then have "r = tidy_rows_of to_num render year pc vc rws ! t_index r" and "t_index r < length rws"
    by (simp_all add: tidy_rows_of_nth)
  then show ?L by (metis length_tidy_rows_of nth_mem)
qed

lemma dropna_sorted:
  "sorted_wrt R rs \<Longrightarrow> sorted_wrt R (dropna rs)"
  by (simp add: dropna_def sorted_wrt_filter)

lemma update_normalized:
  "\<forall>(k, v)\<in>set d. v = normalize_col_name k \<Longrightarrow>
   \<forall>(k, v)\<in>set (AList.update c (normalize_col_name c) d). v = normalize_col_name k"
  by (induction d) auto

lemma first_hint_match_update:
  "\<forall>(k, v)\<in>set d. v = normalize_col_name k \<Longrightarrow>
   first_hint_match hs (AList.update c (normalize_col_name c) d) =
     (case first_hint_match hs d of
        Some x \<Rightarrow> Some x
      | None \<Rightarrow> if hint_hit hs c then Some c else None)"
proof (induction d)
  case Nil
  show ?case by (simp add: hint_hit_def)
next
  case (Cons p d)
  obtain k v where p: "p = (k, v)" by (cases p)
  with Cons.prems have v: "v = normalize_col_name k" by simp
  show ?case
  proof (cases "k = c")
    case True
    with p v show ?thesis by (simp add: hint_hit_def split: option.splits)
  next
    case False
    from Cons have "first_hint_match hs (AList.update c (normalize_col_name c) d) =
      (case first_hint_match hs d of
         Some x \<Rightarrow> Some x
       | None \<Rightarrow> if hint_hit hs c then Some c else None)"
      by simp
    with False p show ?thesis by (simp split: option.splits)
  qed
qed

lemma first_hint_match_foldl:
  "\<forall>(k, v)\<in>set d. v = normalize_col_name k \<Longrightarrow>
   first_hint_match hs (foldl (\<lambda>d col. AList.update col (normalize_col_name col) d) d cols) =
     (case first_hint_match hs d of
        Some x \<Rightarrow> Some x
      | None \<Rightarrow> find (hint_hit hs) cols)"
proof (induction cols arbitrary: d)
  case Nil
  then show ?case by (simp split: option.splits)
next
  case (Cons c cols)
  from Cons.prems have "\<forall>(k, v)\<in>set (AList.update c (normalize_col_name c) d). v = normalize_col_name k"
    by (rule update_normalized)
  from Cons.IH [OF this] Cons.prems show ?case
    by (simp add: first_hint_match_update split: option.splits)
qed

lemma first_hint_match_norm_map:
  "first_hint_match hs (norm_map cols) = find (hint_hit hs) cols"
  using first_hint_match_foldl [of "[]" hs cols] by (simp add: norm_map_def)

subsection \<open>The value column\<close>

text \<open>
  Claim C2, as amended. Whenever some configured hint occurs in some normalized column
  name, \<open>find_value_column\<close> returns the first column, in the order of the table, whose
  normalized name contains any of the hints: the loop over the columns is the outer one,
  the loop over the hints the inner one.
\<close>

theorem find_value_column_first_column:
  assumes "map_of STAT_SPEC stat_name = Some spec"
    and "find (\<lambda>col. \<exists>h\<in>set (hints spec). sublist (py_lower h) (normalize_col_name col))
           (raw_columns df) = Some col"
  shows "find_value_column to_num render df stat_name = Inr col"
proof -
  have "hint_hit (map py_lower (hints spec)) =
        (\<lambda>col. \<exists>h\<in>set (hints spec). sublist (py_lower h) (normalize_col_name col))"
    by (auto simp: hint_hit_def list_ex_iff fun_eq_iff)
  with assms show ?thesis
    by (simp add: find_value_column_def first_hint_match_norm_map)
qed

theorem find_value_column_first_column_witness:
  "map_of STAT_SPEC ''sg_total'' =
     Some \<lparr>output_col = ''sg_total'', hints = [''mean'', ''avg'', ''average'', ''sg:total'']\<rparr> \<and>
   find_value_column py_int py_str_int ex_avg_mean_table ''sg_total'' = Inr ''AVG''"
proof -
  have h1: "map_of STAT_SPEC ''sg_total'' =
     Some \<lparr>output_col = ''sg_total'', hints = [''mean'', ''avg'', ''average'', ''sg:total'']\<rparr>"
    by code_simp
  have h2: "find (\<lambda>col. \<exists>h\<in>set (hints \<lparr>output_col = ''sg_total'',
                 hints = [''mean'', ''avg'', ''average'', ''sg:total'']\<rparr>).
               sublist (py_lower h) (normalize_col_name col))
             (raw_columns ex_avg_mean_table) = Some ''AVG''"
    by code_simp
  from h1 find_value_column_first_column [OF h1 h2] show ?thesis by blast
qed

text \<open>
  Claim C2 as stated fails. For the stat \<open>sg_total\<close> the hint \<open>mean\<close> precedes the hint
  \<open>avg\<close>; in a table with the columns \<open>AVG\<close>, \<open>MEAN\<close> (in this order) the rule of the
  specification selects \<open>MEAN\<close>, and \<open>find_value_column\<close> returns \<open>AVG\<close>.
\<close>

theorem find_value_column_hint_order_counterexample:
  "spec_first_hint_column (map py_lower [''mean'', ''avg'', ''average'', ''sg:total''])
     (raw_columns ex_avg_mean_table) = Some ''MEAN'' \<and>
   find_value_column py_int py_str_int ex_avg_mean_table ''sg_total'' = Inr ''AVG''"
  by code_simp

subsection \<open>The rows of a tidy frame\<close>

lemma parse_one_file_rows:
  assumes "parse_one_file to_num render stem (Inr df) = Inr out"
    and "rsplit_underscore stem = Some (stat_name, year_str)"
    and "find_player_name_column (raw_columns df) = Inr pc"
    and "find_value_column to_num render df stat_name = Inr vc"
  shows "\<exists>year. py_int year_str = Some year \<and>
           t_rows out = drop_duplicates [] (dropna (tidy_rows_of to_num render year pc vc (raw_rows df)))"
  using assms by (auto simp: parse_one_file_def Let_def split: option.splits sum.splits)

lemma dropna_mem: "r \<in> set (dropna rs) \<longleftrightarrow> r \<in> set rs \<and> t_player r \<noteq> None \<and> t_value r \<noteq> None"
  by (auto simp: dropna_def)

text \<open>
  Claim C8, as amended. No two rows of the output of \<open>parse_one_file\<close> share a player
  name. Every output row comes from the raw row at its index, has a value that coerced
  to a number, and no earlier raw row of the same (stripped) player name has such a
  value: of the rows of one name, the first one that survives the filter on missing
  values is kept. Every raw row with a numeric value has its player name in the output.
\<close>

theorem parse_one_file_keeps_first_valid:
  assumes "parse_one_file to_num render stem (Inr df) = Inr out"
    and "rsplit_underscore stem = Some (stat_name, year_str)"
    and "find_player_name_column (raw_columns df) = Inr pc"
    and "find_value_column to_num render df stat_name = Inr vc"
  shows "distinct (map t_player (t_rows out)) \<and>
     (\<forall>r\<in>set (t_rows out).
        t_index r < length (raw_rows df) \<and>
        t_player r = Some (player_name_of render pc (raw_rows df ! t_index r)) \<and>
        t_value r = coerce_numeric to_num render ((raw_rows df ! t_index r) vc) \<and>
        t_value r \<noteq> None \<and>
        (\<forall>j<t_index r.
           player_name_of render pc (raw_rows df ! j) = player_name_of render pc (raw_rows df ! t_index r) \<longrightarrow>
           coerce_numeric to_num render ((raw_rows df ! j) vc) = None)) \<and>
     (\<forall>i<length (raw_rows df).
        coerce_numeric to_num render ((raw_rows df ! i) vc) \<noteq> None \<longrightarrow>
        Some (player_name_of render pc (raw_rows df ! i)) \<in> t_player ` set (t_rows out))"
proof -
  from parse_one_file_rows [OF assms] obtain year where
    rows: "t_rows out = drop_duplicates [] (dropna (tidy_rows_of to_num render year pc vc (raw_rows df)))"
    by blast
  define cand where "cand = tidy_rows_of to_num render year pc vc (raw_rows df)"
  have sorted: "sorted_wrt (\<lambda>a b. t_index a < t_index b) (dropna cand)"
    unfolding cand_def by (rule dropna_sorted) (rule tidy_rows_of_sorted)
  have out_sub: "set (t_rows out) \<subseteq> set (dropna cand)"
    unfolding rows cand_def by (rule drop_duplicates_subset)
  have a: "distinct (map t_player (t_rows out))"
    unfolding rows by (rule drop_duplicates_distinct)
  have b: "t_index r < length (raw_rows df) \<and>
        t_player r = Some (player_name_of render pc (raw_rows df ! t_index r)) \<and>
        t_value r = coerce_numeric to_num render ((raw_rows df ! t_index r) vc) \<and>
        t_value r \<noteq> None \<and>
        (\<forall>j<t_index r.
           player_name_of render pc (raw_rows df ! j) = player_name_of render pc (raw_rows df ! t_index r) \<longrightarrow>
           coerce_numeric to_num render ((raw_rows df ! j) vc) = None)"
    if r: "r \<in> set (t_rows out)" for r
  proof -
    from r out_sub have rd: "r \<in> set (dropna cand)" by blast
    then have rc: "r \<in> set cand" and rv: "t_value r \<noteq> None" by (simp_all add: dropna_mem)
    from rc have i: "t_index r < length (raw_rows df)"
      and req: "r = \<lparr>t_index = t_index r, t_year = year,
        t_player = Some (player_name_of render pc (raw_rows df ! t_index r)),
        t_value = coerce_numeric to_num render ((raw_rows df ! t_index r) vc)\<rparr>"
      unfolding cand_def tidy_rows_of_mem by blast+
    have p: "t_player r = Some (player_name_of render pc (raw_rows df ! t_index r))"
      by (subst req) simp
    have v: "t_value r = coerce_numeric to_num render ((raw_rows df ! t_index r) vc)"
      by (subst req) simp
    have first: "coerce_numeric to_num render ((raw_rows df ! j) vc) = None"
      if j: "j < t_index r"
        and same: "player_name_of render pc (raw_rows df ! j) = player_name_of render pc (raw_rows df ! t_index r)"
      for j
    proof (rule ccontr)
      assume nn: "coerce_numeric to_num render ((raw_rows df ! j) vc) \<noteq> None"
      define q where "q = cand ! j"
      from j i have jl: "j < length (raw_rows df)" by simp
      then have qeq: "q = \<lparr>t_index = j, t_year = year,
          t_player = Some (player_name_of render pc (raw_rows df ! j)),
          t_value = coerce_numeric to_num render ((raw_rows df ! j) vc)\<rparr>"
        unfolding q_def cand_def by (rule tidy_rows_of_nth)
      from jl have "q \<in> set cand" unfolding q_def cand_def by simp
      with qeq nn have qd: "q \<in> set (dropna cand)" by (simp add: dropna_mem)
      from qeq same p have "t_player q = t_player r" by simp
      from drop_duplicates_first [OF sorted _ qd this] r rows
      have "t_index r \<le> t_index q" by (simp add: cand_def)
      with qeq j show False by simp
    qed
    from i p v rv first show ?thesis by blast
  qed
  have c: "Some (player_name_of render pc (raw_rows df ! i)) \<in> t_player ` set (t_rows out)"
    if i: "i < length (raw_rows df)"
      and nn: "coerce_numeric to_num render ((raw_rows df ! i) vc) \<noteq> None" for i
  proof -
    define q where "q = cand ! i"
    from i have qeq: "q = \<lparr>t_index = i, t_year = year,
          t_player = Some (player_name_of render pc (raw_rows df ! i)),
          t_value = coerce_numeric to_num render ((raw_rows df ! i) vc)\<rparr>"
      unfolding q_def cand_def by (rule tidy_rows_of_nth)
    from i have "q \<in> set cand" unfolding q_def cand_def by simp
    with qeq nn have qd: "q \<in> set (dropna cand)" by (simp add: dropna_mem)
    have "t_player ` set (t_rows out) = t_player ` set (dropna cand)"
      unfolding rows cand_def by (simp add: drop_duplicates_players)
    moreover from qeq have "t_player q = Some (player_name_of render pc (raw_rows df ! i))" by simp
    ultimately show ?thesis using qd by (metis imageI)
  qed
  from a b c show ?thesis by blast
qed

theorem parse_one_file_keeps_first_valid_witness:
  "parse_one_file py_int py_str_int ''sg_total_2025'' (Inr ex_repeated_player_table) =
     Inr \<lparr>t_col = ''sg_total'',
          t_rows = [\<lparr>t_index = 1, t_year = 2025, t_player = Some ''Tiger'', t_value = Some 15\<rparr>]\<rparr> \<and>
   coerce_numeric py_int py_str_int ((raw_rows ex_repeated_player_table ! 0) ''AVG'') = None"
proof -
  let ?out = "\<lparr>t_col = ''sg_total'',
      t_rows = [\<lparr>t_index = 1, t_year = 2025, t_player = Some ''Tiger'', t_value = Some (15::int)\<rparr>]\<rparr>"
  have h1: "parse_one_file py_int py_str_int ''sg_total_2025'' (Inr ex_repeated_player_table) = Inr ?out"
    by code_simp
  have h2: "rsplit_underscore ''sg_total_2025'' = Some (''sg_total'', ''2025'')"
    by code_simp
  have h3: "find_player_name_column (raw_columns ex_repeated_player_table) = Inr ''PLAYER''"
    by code_simp
  have h4: "find_value_column py_int py_str_int ex_repeated_player_table ''sg_total'' = Inr ''AVG''"
    by code_simp
  from parse_one_file_keeps_first_valid [OF h1 h2 h3 h4]
  have "\<forall>r\<in>set (t_rows ?out).
        (\<forall>j<t_index r.
           player_name_of py_str_int ''PLAYER'' (raw_rows ex_repeated_player_table ! j) =
           player_name_of py_str_int ''PLAYER'' (raw_rows ex_repeated_player_table ! t_index r) \<longrightarrow>
           coerce_numeric py_int py_str_int ((raw_rows ex_repeated_player_table ! j) ''AVG'') = None)"
    by blast
  then have "coerce_numeric py_int py_str_int ((raw_rows ex_repeated_player_table ! 0) ''AVG'') = None"
    by (simp add: player_name_of_def row_of_def ex_repeated_player_table_def)
  with h1 show ?thesis by blast
qed

text \<open>
  Claim C8 as stated fails: the first occurrence of a name in the row order of the input
  is not always the row that is kept. In a table whose rows 0 and 1 are both of the
  player \<open>Tiger\<close>, with the values \<open>abc\<close> and \<open>15\<close>, the output holds row 1 only.
\<close>

theorem parse_one_file_first_occurrence_counterexample:
  "player_name_of py_str_int ''PLAYER'' (raw_rows ex_repeated_player_table ! 0) =
     player_name_of py_str_int ''PLAYER'' (raw_rows ex_repeated_player_table ! 1) \<and>
   map_sum id (\<lambda>out. map t_index (t_rows out))
     (parse_one_file py_int py_str_int ''sg_total_2025'' (Inr ex_repeated_player_table)) = Inr [1]"
  by code_simp

text \<open>
  Claim C1 at its failing input. The raw row has a missing player-name cell and the
  value \<open>15\<close>. \<open>astype(str)\<close> (pandas 1.x and 2.x) turns the missing cell into the text
  \<open>nan\<close> before \<open>dropna\<close> runs, so the row is not dropped: it is in the output under the
  player name \<open>nan\<close>. The comment above \<open>dropna\<close> says that rows with a missing player
  are dropped.
\<close>

theorem parse_one_file_keeps_null_player:
  "(raw_rows ex_null_player_table ! 0) ''PLAYER'' = NaN \<and>
   parse_one_file py_int py_str_int ''sg_total_2025'' (Inr ex_null_player_table) =
     Inr \<lparr>t_col = ''sg_total'',
          t_rows = [\<lparr>t_index = 0, t_year = 2025, t_player = Some ''nan'', t_value = Some 15\<rparr>]\<rparr>"
  by code_simp

section \<open>Properties of the merger\<close>

subsection \<open>The outer merge\<close>

lemma key_of_join [simp]: "key_of (join_rows cs l r) = key_of l"
  by (simp add: join_rows_def key_of_def)

lemma key_of_left_only [simp]: "key_of (left_only cs l) = key_of l"
  by (simp add: left_only_def key_of_def)

lemma key_of_right_only [simp]: "key_of (right_only cs r) = key_of r"
  by (simp add: right_only_def key_of_def)

lemma columns_merge_outer [simp]:
  "columns (merge_outer l r) =
     columns l @ filter (\<lambda>c. c \<noteq> ''year'' \<and> c \<noteq> ''player_name'') (columns r)"
  by (simp add: merge_outer_def)

lemma rows_merge_outer:
  "rows (merge_outer left right) =
     concat (map (left_part left right) (rows left)) @
     map (right_only (columns left))
       (filter (\<lambda>r. key_of r \<notin> keys left) (rows right))"
  by (simp add: merge_outer_def left_part_def [abs_def] keys_def)

lemma left_part_cases:
  assumes "m \<in> set (left_part left right l)"
  shows "(key_of l \<notin> keys right \<and> m = left_only (columns left) l) \<or>
         (\<exists>r\<in>set (rows right). key_of r = key_of l \<and> m = join_rows (columns left) l r)"
proof (cases "filter (\<lambda>r. key_of r = key_of l) (rows right)")
  case Nil
  then have "key_of l \<notin> keys right"
    by (auto simp: keys_def filter_empty_conv)
  with Nil assms show ?thesis by (simp add: left_part_def)
next
  case (Cons a as)
  with assms obtain r where "r \<in> set (filter (\<lambda>r. key_of r = key_of l) (rows right))"
    and "m = join_rows (columns left) l r"
    by (auto simp: left_part_def)
  then show ?thesis by auto
qed

lemma left_part_keys: "m \<in> set (left_part left right l) \<Longrightarrow> key_of m = key_of l"
  by (auto dest: left_part_cases)

lemma left_part_nonempty: "left_part left right l \<noteq> []"
  by (simp add: left_part_def split: list.splits)

lemma merge_outer_cases:
  assumes "m \<in> set (rows (merge_outer left right))"
  shows "(\<exists>l\<in>set (rows left). key_of l \<notin> keys right \<and> m = left_only (columns left) l) \<or>
         (\<exists>l\<in>set (rows left). \<exists>r\<in>set (rows right). key_of r = key_of l \<and> m = join_rows (columns left) l r) \<or>
         (\<exists>r\<in>set (rows right). key_of r \<notin> keys left \<and> m = right_only (columns left) r)"
proof -
  from assms consider
    (L) l where "l \<in> set (rows left)" "m \<in> set (left_part left right l)"
  | (R) r where "r \<in> set (rows right)" "key_of r \<notin> keys left" "m = right_only (columns left) r"
    by (auto simp: rows_merge_outer)
  then show ?thesis
  proof cases
    case L
    from left_part_cases [OF L(2)] L(1) show ?thesis by blast
  next
    case R
    then show ?thesis by blast
  qed
qed

lemma keys_merge_outer: "keys (merge_outer left right) = keys left \<union> keys right"
proof
  show "keys (merge_outer left right) \<subseteq> keys left \<union> keys right"
  proof
    fix k assume "k \<in> keys (merge_outer left right)"
    then obtain m where m: "m \<in> set (rows (merge_outer left right))" and k: "k = key_of m"
      by (auto simp: keys_def)
    from merge_outer_cases [OF m] k show "k \<in> keys left \<union> keys right"
      by (auto simp: keys_def)
  qed
next
  show "keys left \<union> keys right \<subseteq> keys (merge_outer left right)"
  proof
    fix k assume k: "k \<in> keys left \<union> keys right"
    show "k \<in> keys (merge_outer left right)"
    proof (cases "k \<in> keys left")
      case True
      then obtain l where l: "l \<in> set (rows left)" and kl: "k = key_of l" by (auto simp: keys_def)
      obtain m where m: "m \<in> set (left_part left right l)"
        using left_part_nonempty [of left right l] by (cases "left_part left right l") auto
      with l have "m \<in> set (rows (merge_outer left right))" by (auto simp: rows_merge_outer)
      moreover from m have "key_of m = k" using kl by (simp add: left_part_keys)
      ultimately show ?thesis by (auto simp: keys_def)
    next
      case False
      with k obtain r where r: "r \<in> set (rows right)" and kr: "k = key_of r" by (auto simp: keys_def)
      with False have "right_only (columns left) r \<in> set (rows (merge_outer left right))"
        by (auto simp: rows_merge_outer)
      then have "key_of (right_only (columns left) r) \<in> keys (merge_outer left right)"
        unfolding keys_def by (rule imageI)
      with kr show ?thesis by simp
    qed
  qed
qed

lemma agrees_merge_old:
  assumes "agrees left f c" and "keys f \<subseteq> keys left" and "c \<in> set (columns left)"
  shows "agrees (merge_outer left right) f c"
  unfolding agrees_def
proof
  fix m assume "m \<in> set (rows (merge_outer left right))"
  from merge_outer_cases [OF this]
  show "(\<exists>q\<in>set (rows f). key_of q = key_of m \<and> s_vals m c = s_vals q c) \<or>
        (key_of m \<notin> keys f \<and> s_vals m c = None)"
  proof (elim disjE bexE conjE)
    fix l assume l: "l \<in> set (rows left)" and m: "m = left_only (columns left) l"
    from m assms(3) have "s_vals m c = s_vals l c" "key_of m = key_of l"
      by (simp_all add: left_only_def key_of_def)
    with assms(1) l show ?thesis unfolding agrees_def by metis
  next
    fix l r assume l: "l \<in> set (rows left)" and m: "m = join_rows (columns left) l r"
    from m assms(3) have "s_vals m c = s_vals l c" "key_of m = key_of l"
      by (simp_all add: join_rows_def key_of_def)
    with assms(1) l show ?thesis unfolding agrees_def by metis
  next
    fix r assume r: "key_of r \<notin> keys left" and m: "m = right_only (columns left) r"
    from m assms(3) have "s_vals m c = None" "key_of m = key_of r"
      by (simp_all add: right_only_def key_of_def)
    with r assms(2) show ?thesis by auto
  qed
qed

lemma agrees_merge_new:
  assumes "c \<notin> set (columns left)"
  shows "agrees (merge_outer left right) right c"
  unfolding agrees_def
proof
  fix m assume "m \<in> set (rows (merge_outer left right))"
  from merge_outer_cases [OF this]
  show "(\<exists>q\<in>set (rows right). key_of q = key_of m \<and> s_vals m c = s_vals q c) \<or>
        (key_of m \<notin> keys right \<and> s_vals m c = None)"
  proof (elim disjE bexE conjE)
    fix l assume l: "key_of l \<notin> keys right" and m: "m = left_only (columns left) l"
    from m assms have "s_vals m c = None" "key_of m = key_of l"
      by (simp_all add: left_only_def key_of_def)
    with l show ?thesis by simp
  next
    fix l r assume r: "r \<in> set (rows right)" "key_of r = key_of l"
      and m: "m = join_rows (columns left) l r"
    from m assms have "s_vals m c = s_vals r c" "key_of m = key_of l"
      by (simp_all add: join_rows_def key_of_def)
    with r show ?thesis by auto
  next
    fix r assume r: "r \<in> set (rows right)" and m: "m = right_only (columns left) r"
    from m assms have "s_vals m c = s_vals r c" "key_of m = key_of r"
      by (simp_all add: right_only_def key_of_def)
    with r show ?thesis by auto
  qed
qed

lemma load_all_eq:
  "load_all fs year stats st =
     \<lparr>frames = frames st @ map snd (loaded_frames fs year stats),
      stats_loaded = stats_loaded st @ map fst (filter (yields_data fs year) stats),
      stats_skipped = stats_skipped st @ map fst (filter (load_raises fs year) stats),
      stats_empty = stats_empty st @ map fst (filter (load_empty fs year) stats)\<rparr>"
proof (induction stats arbitrary: st)
  case Nil
  show ?case by (simp add: loaded_frames_def)
next
  case (Cons sc stats)
  obtain s c where sc: "sc = (s, c)" by (cases sc)
  show ?case
  proof (cases "load_stat_for_year fs s year c")
    case (Inl e)
    with sc show ?thesis
      by (simp add: Cons.IH loaded_frames_def yields_data_def load_raises_def load_empty_def)
  next
    case (Inr r)
    with sc show ?thesis
      by (cases r) (simp_all add: Cons.IH loaded_frames_def yields_data_def load_raises_def load_empty_def)
  qed
qed

lemma loaded_frames_empty_iff:
  "loaded_frames fs year stats = [] \<longleftrightarrow> (\<forall>sc\<in>set stats. \<not> yields_data fs year sc)"
  by (induction stats) (auto simp: loaded_frames_def yields_data_def split: sum.splits option.splits)

subsection \<open>Filling and selecting columns\<close>

lemma columns_assign_column:
  "set (columns (assign_column c f df)) = insert c (set (columns df))"
  by (auto simp: assign_column_def)

lemma columns_fill_missing:
  "set (columns (fill_missing cs df)) = set cs \<union> set (columns df)"
  by (induction cs arbitrary: df) (auto simp: columns_assign_column)

lemma select_columns_fill_missing:
  "select_columns cs (fill_missing cs df) =
     Inr ((fill_missing cs df)
            \<lparr>columns := cs,
             rows := map (\<lambda>r. r\<lparr>s_vals := (\<lambda>c. if c \<in> set cs then s_vals r c else None)\<rparr>)
                       (rows (fill_missing cs df))\<rparr>)"
proof -
  have "find (\<lambda>c. c \<notin> set (columns (fill_missing cs df))) cs = None"
    by (simp add: find_None_iff columns_fill_missing)
  then show ?thesis by (simp add: select_columns_def)
qed

lemma name_dtype_merge_outer [simp]: "name_dtype (merge_outer left right) = name_dtype left"
  by (simp add: merge_outer_def)

lemma reduce_merge_eq:
  "reduce_merge f gs =
     (if list_all (\<lambda>g. name_dtype g = name_dtype f) gs then Inr (foldl merge_outer f gs)
      else Inl MergeKeyError)"
  by (induction gs arbitrary: f) (auto simp: pd_merge_def)

lemma names_compatible_eq:
  "loaded_frames fs year STAT_COLUMNS = p # ps \<Longrightarrow>
   names_compatible fs year = list_all (\<lambda>g. name_dtype g = name_dtype (snd p)) (map snd ps)"
  by (simp add: names_compatible_def loaded_dtypes_def list_all_iff)

lemma build_for_year_eq:
  "build_for_year fadd fs year =
     (case loaded_frames fs year STAT_COLUMNS of
        [] \<Rightarrow> Inl (Build (NoData year
                 (map fst (filter (load_raises fs year) STAT_COLUMNS))
                 (map fst (filter (load_empty fs year) STAT_COLUMNS))))
      | p # ps \<Rightarrow>
          if names_compatible fs year
          then Inr (finish fadd (foldl merge_outer (snd p) (map snd ps)))
          else Inl (Build MergeKeyError))"
proof (cases "loaded_frames fs year STAT_COLUMNS")
  case Nil
  then show ?thesis by (simp add: build_for_year_def load_all_eq Let_def)
next
  case (Cons p ps)
  then show ?thesis
    by (simp add: build_for_year_def load_all_eq Let_def reduce_merge_eq
        names_compatible_eq [OF Cons] select_columns_fill_missing finish_def)
qed

subsection \<open>Distinct keys\<close>

lemma filter_key_distinct:
  "distinct (map key_of rs) \<Longrightarrow> r \<in> set rs \<Longrightarrow> filter (\<lambda>q. key_of q = key_of r) rs = [r]"
proof (induction rs)
  case Nil
  then show ?case by simp
next
  case (Cons a rs)
  show ?case
  proof (cases "r = a")
    case True
    from Cons.prems have "key_of a \<notin> key_of ` set rs" by simp
    then have "\<forall>q\<in>set rs. key_of q \<noteq> key_of a" by (metis imageI)
    then have "filter (\<lambda>q. key_of q = key_of a) rs = []" by (simp add: filter_empty_conv)
    with True show ?thesis by simp
  next
    case False
    with Cons.prems have r: "r \<in> set rs" by simp
    from Cons.prems have "key_of a \<notin> key_of ` set rs" by simp
    with r have "key_of a \<noteq> key_of r" by (metis imageI)
    with Cons r show ?thesis by simp
  qed
qed

lemma left_part_singleton:
  assumes "distinct (map key_of (rows right))"
  shows "map key_of (left_part left right l) = [key_of l]"
proof (cases "filter (\<lambda>r. key_of r = key_of l) (rows right)")
  case Nil
  then show ?thesis by (simp add: left_part_def)
next
  case (Cons m ms)
  then have "m \<in> set (filter (\<lambda>r. key_of r = key_of l) (rows right))" by simp
  then have m: "m \<in> set (rows right)" and k: "key_of m = key_of l" by simp_all
  from filter_key_distinct [OF assms m] k Cons have "ms = []" by simp
  with Cons show ?thesis by (simp add: left_part_def)
qed

lemma keys_left_parts:
  assumes "distinct (map key_of (rows right))"
  shows "map key_of (concat (map (left_part left right) ls)) = map key_of ls"
  by (induction ls) (simp_all add: left_part_singleton [OF assms])

lemma distinct_keys_merge_outer:
  assumes "distinct (map key_of (rows left))" and "distinct (map key_of (rows right))"
  shows "distinct (map key_of (rows (merge_outer left right)))"
proof -
  have r: "map key_of (map (right_only (columns left)) (filter (\<lambda>r. key_of r \<notin> keys left) (rows right)))
        = filter (\<lambda>k. k \<notin> keys left) (map key_of (rows right))"
    by (simp add: filter_map comp_def)
  have "map key_of (rows (merge_outer left right)) =
        map key_of (rows left) @ filter (\<lambda>k. k \<notin> keys left) (map key_of (rows right))"
    unfolding rows_merge_outer map_append keys_left_parts [OF assms(2)] r ..
  with assms show ?thesis by (auto simp: keys_def)
qed

subsection \<open>The fold over the loaded frames\<close>

lemma merge_fold:
  assumes "stat_frame p0" and "\<forall>p\<in>set ps. stat_frame p" and "distinct (map fst (p0 # ps))"
  shows "columns (foldl merge_outer (snd p0) (map snd ps)) = [''year'', ''player_name''] @ map fst (p0 # ps) \<and>
         keys (foldl merge_outer (snd p0) (map snd ps)) = (\<Union>p\<in>set (p0 # ps). keys (snd p)) \<and>
         (\<forall>p\<in>set (p0 # ps). agrees (foldl merge_outer (snd p0) (map snd ps)) (snd p) (fst p))"
  using assms(2,3)
proof (induction ps rule: rev_induct)
  case Nil
  have "agrees (snd p0) (snd p0) (fst p0)" by (auto simp: agrees_def)
  with assms(1) show ?case by (simp add: stat_frame_def)
next
  case (snoc p ps)
  define m where "m = foldl merge_outer (snd p0) (map snd ps)"
  from snoc.prems have ps: "\<forall>p\<in>set ps. stat_frame p" and d: "distinct (map fst (p0 # ps))"
    and p: "stat_frame p" and fresh: "fst p \<notin> set (map fst (p0 # ps))"
    by auto
  from snoc.IH [OF ps d] have
    cols: "columns m = [''year'', ''player_name''] @ map fst (p0 # ps)"
    and ks: "keys m = (\<Union>p\<in>set (p0 # ps). keys (snd p))"
    and ag: "\<forall>q\<in>set (p0 # ps). agrees m (snd q) (fst q)"
    unfolding m_def by blast+
  have fold: "foldl merge_outer (snd p0) (map snd (ps @ [p])) = merge_outer m (snd p)"
    by (simp add: m_def)
  from p have pc: "filter (\<lambda>c. c \<noteq> ''year'' \<and> c \<noteq> ''player_name'') (columns (snd p)) = [fst p]"
    by (simp add: stat_frame_def)
  have c1: "columns (merge_outer m (snd p)) = [''year'', ''player_name''] @ map fst (p0 # ps @ [p])"
    by (simp add: cols pc)
  have c2: "keys (merge_outer m (snd p)) = (\<Union>q\<in>set (p0 # ps @ [p]). keys (snd q))"
    by (auto simp: keys_merge_outer ks)
  have notin: "fst p \<notin> set (columns m)"
    using fresh p by (auto simp: cols stat_frame_def)
  have c3: "agrees (merge_outer m (snd p)) (snd q) (fst q)" if q: "q \<in> set (p0 # ps @ [p])" for q
  proof (cases "q = p")
    case True
    with agrees_merge_new [OF notin] show ?thesis by simp
  next
    case False
    with q have q': "q \<in> set (p0 # ps)" by auto
    with ag have "agrees m (snd q) (fst q)" by blast
    moreover from q' ks have "keys (snd q) \<subseteq> keys m" by blast
    moreover from q' have "fst q \<in> set (columns m)" by (auto simp: cols)
    ultimately show ?thesis by (rule agrees_merge_old)
  qed
  from c1 c2 c3 show ?case unfolding fold by blast
qed

lemma distinct_keys_fold:
  assumes "distinct (map key_of (rows f))" and "\<forall>g\<in>set gs. distinct (map key_of (rows g))"
  shows "distinct (map key_of (rows (foldl merge_outer f gs)))"
  using assms by (induction gs arbitrary: f) (simp_all add: distinct_keys_merge_outer)

subsection \<open>The frames that are loaded\<close>

lemma load_stat_for_year_frame:
  assumes "load_stat_for_year fs s year c = Inr (Some df)"
  shows "\<exists>tbl. map_of fs (inter_path s year) = Some (Inr tbl) \<and>
           columns df = [''year'', ''player_name'', c] \<and>
           rows df = List.map_filter (\<lambda>r.
                        case c_player r of
                          None \<Rightarrow> None
                        | Some p \<Rightarrow>
                            Some \<lparr>s_year = c_year r, s_player = p,
                                  s_vals = (\<lambda>c'. if c' = c then c_vals r c' else None)\<rparr>)
                      (csv_rows tbl)"
  using assms
  by (auto simp: load_stat_for_year_def Let_def split: option.splits sum.splits if_splits)

lemma loaded_frames_mem:
  "(c, df) \<in> set (loaded_frames fs year stats) \<longleftrightarrow>
   (\<exists>s. (s, c) \<in> set stats \<and> load_stat_for_year fs s year c = Inr (Some df))"
  by (induction stats) (auto simp: loaded_frames_def split: sum.splits option.splits)

lemma loaded_frames_cols:
  "map fst (loaded_frames fs year stats) = map snd (filter (yields_data fs year) stats)"
  by (induction stats) (auto simp: loaded_frames_def yields_data_def split: sum.splits option.splits)

lemma distinct_STAT_COLUMNS: "distinct (map snd STAT_COLUMNS)"
  by (simp add: STAT_COLUMNS_def)

lemma STAT_COLUMNS_not_key:
  "(s, c) \<in> set STAT_COLUMNS \<Longrightarrow> c \<noteq> ''year'' \<and> c \<noteq> ''player_name'' \<and> c \<noteq> ''sg_tee_to_green'' \<and> c \<in> set expected_cols"
  by (auto simp: STAT_COLUMNS_def expected_cols_def)

lemma loaded_frames_distinct: "distinct (map fst (loaded_frames fs year STAT_COLUMNS))"
  unfolding loaded_frames_cols by (rule distinct_map_filter) (rule distinct_STAT_COLUMNS)

lemma loaded_frames_stat_frame:
  "p \<in> set (loaded_frames fs year STAT_COLUMNS) \<Longrightarrow> stat_frame p"
proof -
  assume p: "p \<in> set (loaded_frames fs year STAT_COLUMNS)"
  obtain c df where pc: "p = (c, df)" by (cases p)
  with p obtain s where s: "(s, c) \<in> set STAT_COLUMNS" and l: "load_stat_for_year fs s year c = Inr (Some df)"
    by (auto simp: loaded_frames_mem)
  from load_stat_for_year_frame [OF l] STAT_COLUMNS_not_key [OF s] pc show ?thesis
    by (auto simp: stat_frame_def)
qed

subsection \<open>The steps after the merge\<close>

lemma rows_fill_missing:
  "rows (fill_missing cs df) =
     map (\<lambda>r. r\<lparr>s_vals := (\<lambda>c. if c \<in> set cs \<and> c \<notin> set (columns df) then None else s_vals r c)\<rparr>)
       (rows df)"
proof (induction cs arbitrary: df)
  case Nil
  show ?case by (simp add: map_idI)
next
  case (Cons col cs)
  show ?case
  proof (cases "col \<in> set (columns df)")
    case True
    then have "\<And>c. (c \<in> set (col # cs) \<and> c \<notin> set (columns df)) = (c \<in> set cs \<and> c \<notin> set (columns df))"
      by auto
    with True show ?thesis by (simp add: Cons.IH)
  next
    case False
    have "(\<lambda>c. if c \<in> set cs \<and> c \<notin> set (columns (assign_column col (\<lambda>r. None) df)) then None
               else ((s_vals r)(col := None)) c) =
          (\<lambda>c. if c \<in> set (col # cs) \<and> c \<notin> set (columns df) then None else s_vals r c)" for r :: "('a, 'b) season_row"
      using False by (auto simp: fun_eq_iff columns_assign_column)
    with False show ?thesis
      by (simp add: Cons.IH) (simp add: assign_column_def comp_def cong: if_cong)
  qed
qed

lemma rows_finish:
  "rows (finish fadd m) = sort_key sort_rank (map (finish_row fadd (columns m)) (rows m))"
proof (cases "list_all (\<lambda>c. c \<in> set (columns m)) [''sg_off_the_tee'', ''sg_approach'', ''sg_around_green'']")
  case True
  then show ?thesis
    by (auto simp: finish_def sort_values_def rows_fill_missing with_tee_to_green_def
          assign_column_def finish_row_def comp_def fun_eq_iff
        intro!: arg_cong [where f = "sort_key sort_rank"])
next
  case False
  then show ?thesis
    by (auto simp: finish_def sort_values_def rows_fill_missing with_tee_to_green_def
          finish_row_def comp_def fun_eq_iff
        intro!: arg_cong [where f = "sort_key sort_rank"])
qed

lemma columns_finish: "columns (finish fadd m) = expected_cols"
  by (simp add: finish_def sort_values_def)

lemma key_of_finish_row [simp]: "key_of (finish_row fadd cols r) = key_of r"
  by (simp add: finish_row_def key_of_def)

lemma keys_finish: "keys (finish fadd m) = keys m"
  by (simp add: keys_def rows_finish image_image)

lemma distinct_map_sort_key: "distinct (map f xs) \<Longrightarrow> distinct (map f (sort_key g xs))"
  by (simp add: distinct_map)

lemma distinct_finish:
  assumes "distinct (map key_of (rows m))"
  shows "distinct (map key_of (rows (finish fadd m)))"
proof -
  from assms have "distinct (map key_of (map (finish_row fadd (columns m)) (rows m)))"
    by (simp add: comp_def)
  then show ?thesis unfolding rows_finish by (rule distinct_map_sort_key)
qed

lemma finish_row_keeps:
  "c \<in> set cols \<Longrightarrow> c \<in> set expected_cols \<Longrightarrow> c \<noteq> ''sg_tee_to_green'' \<Longrightarrow>
   s_vals (finish_row fadd cols r) c = s_vals r c"
  by (simp add: finish_row_def)

lemma finish_row_fills:
  "c \<notin> set cols \<Longrightarrow> c \<noteq> ''sg_tee_to_green'' \<Longrightarrow> s_vals (finish_row fadd cols r) c = None"
  by (simp add: finish_row_def)

lemma agrees_finish:
  assumes "agrees m f c" and "c \<in> set (columns m)" and "c \<in> set expected_cols" and "c \<noteq> ''sg_tee_to_green''"
  shows "agrees (finish fadd m) f c"
  unfolding agrees_def
proof
  fix r assume "r \<in> set (rows (finish fadd m))"
  then obtain r0 where r0: "r0 \<in> set (rows m)" and r: "r = finish_row fadd (columns m) r0"
    by (auto simp: rows_finish)
  from r assms(2-4) have "s_vals r c = s_vals r0 c" "key_of r = key_of r0"
    by (simp_all add: finish_row_keeps)
  with assms(1) r0 show "(\<exists>q\<in>set (rows f). key_of q = key_of r \<and> s_vals r c = s_vals q c) \<or>
        (key_of r \<notin> keys f \<and> s_vals r c = None)"
    unfolding agrees_def by metis
qed

lemma finish_fills:
  assumes "c \<notin> set (columns m)" and "c \<noteq> ''sg_tee_to_green''" and "r \<in> set (rows (finish fadd m))"
  shows "s_vals r c = None"
  using assms by (auto simp: rows_finish finish_row_fills)

subsection \<open>The result of build\_for\_year\<close>

lemma build_for_year_Inr:
  assumes "build_for_year fadd fs year = Inr out"
  obtains p0 ps where "loaded_frames fs year STAT_COLUMNS = p0 # ps"
    and "names_compatible fs year"
    and "out = finish fadd (foldl merge_outer (snd p0) (map snd ps))"
proof (cases "loaded_frames fs year STAT_COLUMNS")
  case Nil
  with assms show ?thesis by (simp add: build_for_year_eq)
next
  case (Cons p0 ps)
  with assms have "names_compatible fs year"
    and "out = finish fadd (foldl merge_outer (snd p0) (map snd ps))"
    by (simp_all add: build_for_year_eq split: if_splits)
  with Cons that show ?thesis by blast
qed

lemma build_for_year_succeeds:
  assumes "sc \<in> set STAT_COLUMNS" and "yields_data fs year sc" and "names_compatible fs year"
  shows "\<exists>out. build_for_year fadd fs year = Inr out"
proof -
  from assms(1,2) have "loaded_frames fs year STAT_COLUMNS \<noteq> []"
    by (auto simp: loaded_frames_empty_iff)
  with assms(3) show ?thesis
    by (cases "loaded_frames fs year STAT_COLUMNS") (simp_all add: build_for_year_eq)
qed

lemma STAT_COLUMNS_inj:
  assumes "sc \<in> set STAT_COLUMNS" and "sc' \<in> set STAT_COLUMNS" and "snd sc = snd sc'"
  shows "sc = sc'"
proof -
  from distinct_STAT_COLUMNS have "inj_on snd (set STAT_COLUMNS)" by (simp add: distinct_map)
  from inj_onD [OF this assms(3) assms(1) assms(2)] show ?thesis .
qed

lemma not_loaded_column:
  assumes "sc \<in> set STAT_COLUMNS" and "\<not> yields_data fs year sc"
  shows "snd sc \<notin> fst ` set (loaded_frames fs year STAT_COLUMNS)"
proof
  assume "snd sc \<in> fst ` set (loaded_frames fs year STAT_COLUMNS)"
  then have "snd sc \<in> set (map snd (filter (yields_data fs year) STAT_COLUMNS))"
    by (simp add: loaded_frames_cols [symmetric])
  then obtain sc' where sc': "sc' \<in> set STAT_COLUMNS" "yields_data fs year sc'" "snd sc' = snd sc"
    by auto
  from sc' assms(1) have "sc' = sc" by (intro STAT_COLUMNS_inj)
  with sc' assms(2) show False by simp
qed

lemma build_for_year_result:
  assumes "build_for_year fadd fs year = Inr out"
  shows "columns out = expected_cols"
    and "keys out = (\<Union>p\<in>set (loaded_frames fs year STAT_COLUMNS). keys (snd p))"
    and "\<forall>p\<in>set (loaded_frames fs year STAT_COLUMNS). agrees out (snd p) (fst p)"
    and "\<forall>sc\<in>set STAT_COLUMNS. \<not> yields_data fs year sc \<longrightarrow> (\<forall>r\<in>set (rows out). s_vals r (snd sc) = None)"
    and "(\<forall>p\<in>set (loaded_frames fs year STAT_COLUMNS). distinct (map key_of (rows (snd p)))) \<longrightarrow>
         distinct (map key_of (rows out))"
proof -
  from assms obtain p0 ps where l: "loaded_frames fs year STAT_COLUMNS = p0 # ps"
    and out: "out = finish fadd (foldl merge_outer (snd p0) (map snd ps))"
    by (rule build_for_year_Inr) blast
  define m where "m = foldl merge_outer (snd p0) (map snd ps)"
  have sf: "stat_frame p0" "\<forall>p\<in>set ps. stat_frame p"
    using loaded_frames_stat_frame [of _ fs year] l by auto
  have d: "distinct (map fst (p0 # ps))"
    using loaded_frames_distinct [of fs year] l by simp
  from merge_fold [OF sf d] have
    cols: "columns m = [''year'', ''player_name''] @ map fst (p0 # ps)"
    and ks: "keys m = (\<Union>p\<in>set (p0 # ps). keys (snd p))"
    and ag: "\<forall>p\<in>set (p0 # ps). agrees m (snd p) (fst p)"
    unfolding m_def by blast+
  show "columns out = expected_cols" by (simp add: out columns_finish)
  show "keys out = (\<Union>p\<in>set (loaded_frames fs year STAT_COLUMNS). keys (snd p))"
    unfolding out l keys_finish using ks by (simp add: m_def)
  show "\<forall>p\<in>set (loaded_frames fs year STAT_COLUMNS). agrees out (snd p) (fst p)"
  proof
    fix p assume p: "p \<in> set (loaded_frames fs year STAT_COLUMNS)"
    then obtain s where s: "(s, fst p) \<in> set STAT_COLUMNS"
      using loaded_frames_mem [of "fst p" "snd p" fs year STAT_COLUMNS] by auto
    note nk = STAT_COLUMNS_not_key [OF s]
    from p l ag have "agrees m (snd p) (fst p)" by auto
    moreover from p l have "fst p \<in> set (columns m)" by (auto simp: cols)
    ultimately have "agrees (finish fadd m) (snd p) (fst p)"
      using nk by (intro agrees_finish) simp_all
    then show "agrees out (snd p) (fst p)" by (simp add: out m_def)
  qed
  show "\<forall>sc\<in>set STAT_COLUMNS. \<not> yields_data fs year sc \<longrightarrow> (\<forall>r\<in>set (rows out). s_vals r (snd sc) = None)"
  proof (intro ballI impI)
    fix sc r assume sc: "sc \<in> set STAT_COLUMNS" and n: "\<not> yields_data fs year sc"
      and r: "r \<in> set (rows out)"
    from sc have nk: "snd sc \<noteq> ''year''" "snd sc \<noteq> ''player_name''" "snd sc \<noteq> ''sg_tee_to_green''"
      using STAT_COLUMNS_not_key [of "fst sc" "snd sc"] by simp_all
    from not_loaded_column [OF sc n] l have "snd sc \<notin> fst ` set (p0 # ps)" by simp
    with nk have "snd sc \<notin> set (columns m)" by (auto simp: cols)
    from finish_fills [OF this nk(3)] r show "s_vals r (snd sc) = None"
      by (simp add: out m_def)
  qed
  show "(\<forall>p\<in>set (loaded_frames fs year STAT_COLUMNS). distinct (map key_of (rows (snd p)))) \<longrightarrow>
         distinct (map key_of (rows out))"
  proof
    assume "\<forall>p\<in>set (loaded_frames fs year STAT_COLUMNS). distinct (map key_of (rows (snd p)))"
    with l have "distinct (map key_of (rows (snd p0)))"
      and "\<forall>g\<in>set (map snd ps). distinct (map key_of (rows g))" by auto
    then have "distinct (map key_of (rows m))" unfolding m_def by (rule distinct_keys_fold)
    then show "distinct (map key_of (rows out))" unfolding out m_def [symmetric] by (rule distinct_finish)
  qed
qed

lemma build_for_year_tee_to_green:
  assumes "build_for_year fadd fs year = Inr out" and "r \<in> set (rows out)"
  shows "s_vals r ''sg_tee_to_green'' =
     (if list_all (yields_data fs year)
           [(''sg_ott'', ''sg_off_the_tee''), (''sg_app'', ''sg_approach''), (''sg_arg'', ''sg_around_green'')]
      then add_cells fadd (add_cells fadd (s_vals r ''sg_off_the_tee'') (s_vals r ''sg_approach''))
             (s_vals r ''sg_around_green'')
      else None)"
proof -
  from assms(1) obtain p0 ps where l: "loaded_frames fs year STAT_COLUMNS = p0 # ps"
    and out: "out = finish fadd (foldl merge_outer (snd p0) (map snd ps))"
    by (rule build_for_year_Inr) blast
  define m where "m = foldl merge_outer (snd p0) (map snd ps)"
  have sf: "stat_frame p0" "\<forall>p\<in>set ps. stat_frame p"
    using loaded_frames_stat_frame [of _ fs year] l by auto
  have d: "distinct (map fst (p0 # ps))"
    using loaded_frames_distinct [of fs year] l by simp
  from merge_fold [OF sf d] have
    "columns m = [''year'', ''player_name''] @ map fst (p0 # ps)"
    unfolding m_def by blast
  then have cols: "columns m = [''year'', ''player_name''] @ map snd (filter (yields_data fs year) STAT_COLUMNS)"
    using l by (simp add: loaded_frames_cols [symmetric])
  have mem: "c \<in> set (columns m) \<longleftrightarrow> yields_data fs year (s, c)"
    if "(s, c) \<in> set STAT_COLUMNS" for s c
  proof
    assume "c \<in> set (columns m)"
    with STAT_COLUMNS_not_key [OF that] obtain sc where
      sc: "sc \<in> set STAT_COLUMNS" "yields_data fs year sc" "snd sc = c"
      by (auto simp: cols)
    from sc that have "sc = (s, c)" by (intro STAT_COLUMNS_inj) simp_all
    with sc show "yields_data fs year (s, c)" by simp
  next
    assume "yields_data fs year (s, c)"
    with that show "c \<in> set (columns m)" by (force simp: cols)
  qed
  have three: "list_all (\<lambda>c. c \<in> set (columns m)) [''sg_off_the_tee'', ''sg_approach'', ''sg_around_green'']
      \<longleftrightarrow> list_all (yields_data fs year)
           [(''sg_ott'', ''sg_off_the_tee''), (''sg_app'', ''sg_approach''), (''sg_arg'', ''sg_around_green'')]"
    using mem [of "''sg_ott''" "''sg_off_the_tee''"] mem [of "''sg_app''" "''sg_approach''"]
      mem [of "''sg_arg''" "''sg_around_green''"]
    by (simp add: STAT_COLUMNS_def)
  from assms(2) obtain r0 where r0: "r0 \<in> set (rows m)" and r: "r = finish_row fadd (columns m) r0"
    by (auto simp: out m_def rows_finish)
  have ttg_not_col: "''sg_tee_to_green'' \<notin> set (columns m)"
    using STAT_COLUMNS_not_key by (force simp: cols)
  show ?thesis
  proof (cases "list_all (\<lambda>c. c \<in> set (columns m)) [''sg_off_the_tee'', ''sg_approach'', ''sg_around_green'']")
    case True
    then have "s_vals r ''sg_off_the_tee'' = s_vals r0 ''sg_off_the_tee''"
      "s_vals r ''sg_approach'' = s_vals r0 ''sg_approach''"
      "s_vals r ''sg_around_green'' = s_vals r0 ''sg_around_green''"
      unfolding r by (simp_all add: finish_row_keeps expected_cols_def)
    moreover from True have "s_vals r ''sg_tee_to_green'' =
        add_cells fadd (add_cells fadd (s_vals r0 ''sg_off_the_tee'') (s_vals r0 ''sg_approach''))
             (s_vals r0 ''sg_around_green'')"
      unfolding r by (simp add: finish_row_def expected_cols_def)
    moreover from True three have "list_all (yields_data fs year)
           [(''sg_ott'', ''sg_off_the_tee''), (''sg_app'', ''sg_approach''), (''sg_arg'', ''sg_around_green'')]"
      by blast
    ultimately show ?thesis by (simp only: if_True)
  next
    case False
    with ttg_not_col have n: "s_vals r ''sg_tee_to_green'' = None"
      unfolding r by (auto simp: finish_row_def)
    from False three have "\<not> list_all (yields_data fs year)
           [(''sg_ott'', ''sg_off_the_tee''), (''sg_app'', ''sg_approach''), (''sg_arg'', ''sg_around_green'')]"
      by blast
    then show ?thesis by (simp only: n if_False)
  qed
qed

lemma map_filter_mem:
  "x \<in> set xs \<Longrightarrow> f x = Some y \<Longrightarrow> y \<in> set (List.map_filter f xs)"
  by (induction xs) (auto split: option.splits)

subsection \<open>main\<close>

lemma build_years_result:
  "build_years fadd fs ys written all_years = (w, Inr result) \<Longrightarrow>
   \<exists>dfs. map (build_for_year fadd fs) ys = map Inr dfs \<and>
         w = written @ map2 (\<lambda>y df. (''master_'' @ py_str_int y, df)) ys dfs \<and>
         result = all_years @ dfs"
proof (induction ys arbitrary: written all_years)
  case Nil
  then show ?case by simp
next
  case (Cons y ys)
  from Cons.prems obtain df where df: "build_for_year fadd fs y = Inr df"
    by (cases "build_for_year fadd fs y") simp_all
  with Cons.prems have "build_years fadd fs ys (written @ [(''master_'' @ py_str_int y, df)])
      (all_years @ [df]) = (w, Inr result)" by simp
  from Cons.IH [OF this] obtain dfs where
    "map (build_for_year fadd fs) ys = map Inr dfs"
    "w = (written @ [(''master_'' @ py_str_int y, df)]) @ map2 (\<lambda>y df. (''master_'' @ py_str_int y, df)) ys dfs"
    "result = (all_years @ [df]) @ dfs" by blast
  with df have "map (build_for_year fadd fs) (y # ys) = map Inr (df # dfs) \<and>
         w = written @ map2 (\<lambda>y df. (''master_'' @ py_str_int y, df)) (y # ys) (df # dfs) \<and>
         result = all_years @ (df # dfs)" by simp
  then show ?case by blast
qed

lemma build_years_succeeds:
  "\<forall>y\<in>set ys. \<exists>out. build_for_year fadd fs y = Inr out \<Longrightarrow>
   \<exists>w result. build_years fadd fs ys written all_years = (w, Inr result)"
proof (induction ys arbitrary: written all_years)
  case Nil
  show ?case by simp
next
  case (Cons y ys)
  from Cons.prems obtain df where df: "build_for_year fadd fs y = Inr df" by auto
  from Cons.prems have "\<forall>y\<in>set ys. \<exists>out. build_for_year fadd fs y = Inr out" by simp
  from Cons.IH [OF this] df show ?case by simp
qed

lemma build_years_written_columns:
  "\<forall>p\<in>set written. columns (snd p) = expected_cols \<Longrightarrow>
   \<forall>p\<in>set (fst (build_years fadd fs ys written all_years)). columns (snd p) = expected_cols"
proof (induction ys arbitrary: written all_years)
  case Nil
  then show ?case by simp
next
  case (Cons y ys)
  show ?case
  proof (cases "build_for_year fadd fs y")
    case (Inl e)
    with Cons.prems show ?thesis by simp
  next
    case (Inr df)
    then have "columns df = expected_cols" by (rule build_for_year_result(1))
    with Cons.prems have "\<forall>p\<in>set (written @ [(''master_'' @ py_str_int y, df)]). columns (snd p) = expected_cols"
      by simp
    from Cons.IH [OF this] Inr show ?thesis by simp
  qed
qed

lemma concat_frames_same_columns:
  assumes "dfs \<noteq> []" and "\<forall>df\<in>set dfs. columns df = cs"
  shows "columns (concat_frames dfs) = cs"
proof -
  have step: "foldl (\<lambda>acc cs. acc @ filter (\<lambda>c. c \<notin> set acc) cs) cs xs = cs" if "\<forall>x\<in>set xs. x = cs" for xs
    using that by (induction xs) simp_all
  from assms obtain d ds where dfs: "dfs = d # ds" by (cases dfs) auto
  with assms(2) have "columns d = cs" "\<forall>x\<in>set (map columns ds). x = cs" by simp_all
  with step [of "map columns ds"] show ?thesis by (simp add: concat_frames_def dfs)
qed

lemma sorted_discover_years: "sorted_wrt (<) (discover_years stems)"
  by (simp add: discover_years_def strict_sorted_iff)

lemma main_result:
  assumes "main fadd fs = (written, None)" and "discover_years (map fst fs) \<noteq> []"
  shows "\<exists>dfs. map (build_for_year fadd fs) (discover_years (map fst fs)) = map Inr dfs \<and>
           written = map2 (\<lambda>y df. (''master_'' @ py_str_int y, df)) (discover_years (map fst fs)) dfs
                       @ [(''master_player_seasons'', concat_frames dfs)] \<and>
           columns (concat_frames dfs) = expected_cols"
proof -
  define years where "years = discover_years (map fst fs)"
  obtain w res where b: "build_years fadd fs years [] [] = (w, res)"
    by (cases "build_years fadd fs years [] []")
  with assms obtain result where res: "res = Inr result"
    by (cases res) (simp_all add: main_def years_def)
  from build_years_result [of fadd fs years "[]" "[]" w result] b res obtain dfs where
    dfs: "map (build_for_year fadd fs) years = map Inr dfs"
      "w = map2 (\<lambda>y df. (''master_'' @ py_str_int y, df)) years dfs" "result = dfs"
    by auto
  from dfs(1) have len: "length dfs = length years" by (metis length_map)
  with assms(2) have ne: "dfs \<noteq> []" by (auto simp: years_def)
  have "columns df = expected_cols" if "df \<in> set dfs" for df
  proof -
    from that obtain i where i: "i < length dfs" "df = dfs ! i" by (auto simp: in_set_conv_nth)
    with dfs(1) len have "build_for_year fadd fs (years ! i) = Inr df"
      by (metis nth_map)
    then show ?thesis by (rule build_for_year_result(1))
  qed
  with ne have "columns (concat_frames dfs) = expected_cols"
    by (intro concat_frames_same_columns) simp_all
  moreover from assms b res dfs have "written = w @ [(''master_player_seasons'', concat_frames dfs)]"
    by (simp add: main_def years_def)
  ultimately show ?thesis using dfs unfolding years_def by blast
qed

lemma main_succeeds:
  assumes "discover_years (map fst fs) \<noteq> []"
    and "\<forall>y\<in>set (discover_years (map fst fs)).
           names_compatible fs y \<and> (\<exists>sc\<in>set STAT_COLUMNS. yields_data fs y sc)"
  shows "\<exists>written. main fadd fs = (written, None)"
proof -
  from assms(2) have "\<forall>y\<in>set (discover_years (map fst fs)). \<exists>out. build_for_year fadd fs y = Inr out"
    using build_for_year_succeeds by blast
  from build_years_succeeds [OF this, of "[]" "[]"] assms(1) show ?thesis
    by (auto simp: main_def)
qed

lemma main_written_columns: "\<forall>p\<in>set (fst (main fadd fs)). columns (snd p) = expected_cols"
proof (cases "discover_years (map fst fs) = []")
  case True
  then show ?thesis by (simp add: main_def)
next
  case False
  obtain w res where b: "build_years fadd fs (discover_years (map fst fs)) [] [] = (w, res)"
    by (cases "build_years fadd fs (discover_years (map fst fs)) [] []")
  from build_years_written_columns [of "[]" fadd fs "discover_years (map fst fs)" "[]"] b
  have w: "\<forall>p\<in>set w. columns (snd p) = expected_cols" by simp
  show ?thesis
  proof (cases res)
    case (Inl e)
    with False b w show ?thesis by (simp add: main_def)
  next
    case (Inr result)
    with False b have m: "main fadd fs = (w @ [(''master_player_seasons'', concat_frames result)], None)"
      by (simp add: main_def)
    from main_result [OF m False] obtain dfs where
      "w @ [(''master_player_seasons'', concat_frames result)] =
        map2 (\<lambda>y df. (''master_'' @ py_str_int y, df)) (discover_years (map fst fs)) dfs
                       @ [(''master_player_seasons'', concat_frames dfs)]"
      "columns (concat_frames dfs) = expected_cols" by blast
    then have "columns (concat_frames result) = expected_cols" by simp
    with w m show ?thesis by simp
  qed
qed

subsection \<open>The example directories\<close>

lemma keys_loaded:
  "(\<Union>p\<in>set ps. keys (snd p)) = set (concat (map (\<lambda>p. map key_of (rows (snd p))) ps))"
  by (auto simp: keys_def)

lemma sg_total_configured: "(''sg_total'', ''sg_total'') \<in> set STAT_COLUMNS"
  by (simp add: STAT_COLUMNS_def)

lemma sg_ott_configured: "(''sg_ott'', ''sg_off_the_tee'') \<in> set STAT_COLUMNS"
  by (simp add: STAT_COLUMNS_def)

lemma sg_putt_configured: "(''sg_putt'', ''sg_putting'') \<in> set STAT_COLUMNS"
  by (simp add: STAT_COLUMNS_def)

lemma ex_sg_total_path: "inter_path ''sg_total'' 2024 = ''sg_total_2024''"
  by code_simp

lemma ex_sg_putt_path: "inter_path ''sg_putt'' 2024 = ''sg_putt_2024''"
  by code_simp

lemma ex_two_stats_yields: "yields_data ex_two_stats_dir 2024 (''sg_total'', ''sg_total'')"
  by code_simp

lemma ex_two_stats_compatible: "names_compatible ex_two_stats_dir 2024"
  by code_simp

lemma ex_two_stats_years: "discover_years (map fst ex_two_stats_dir) = [2024]"
  by code_simp

lemma ex_mixed_names_yields_total: "yields_data ex_mixed_names_dir 2024 (''sg_total'', ''sg_total'')"
  by code_simp

lemma ex_mixed_names_yields_ott: "yields_data ex_mixed_names_dir 2024 (''sg_ott'', ''sg_off_the_tee'')"
  by code_simp

lemma ex_mixed_names_dtypes: "loaded_dtypes ex_mixed_names_dir 2024 = [ObjectDtype, NumericDtype]"
  by code_simp

lemma ex_mixed_names_raises:
  "build_for_year int_add ex_mixed_names_dir 2024 = Inl (Build MergeKeyError)"
proof -
  have "\<not> names_compatible ex_mixed_names_dir 2024"
    by (simp add: names_compatible_def ex_mixed_names_dtypes)
  moreover from sg_total_configured ex_mixed_names_yields_total
  have "loaded_frames ex_mixed_names_dir 2024 STAT_COLUMNS \<noteq> []"
    by (auto simp: loaded_frames_empty_iff)
  ultimately show ?thesis
    by (cases "loaded_frames ex_mixed_names_dir 2024 STAT_COLUMNS") (simp_all add: build_for_year_eq)
qed

lemma ex_two_years_years: "discover_years (map fst ex_two_years_dir) = [2023, 2024]"
  by code_simp

lemma ex_two_years_yields_2023: "yields_data ex_two_years_dir 2023 (''sg_total'', ''sg_total'')"
  by code_simp

lemma ex_two_years_yields_2024: "yields_data ex_two_years_dir 2024 (''sg_total'', ''sg_total'')"
  by code_simp

lemma ex_two_years_compatible_2023: "names_compatible ex_two_years_dir 2023"
  by code_simp

lemma ex_two_years_compatible_2024: "names_compatible ex_two_years_dir 2024"
  by code_simp

lemma ex_two_years_keys_2023:
  "map (\<lambda>p. map key_of (rows (snd p))) (loaded_frames ex_two_years_dir 2023 STAT_COLUMNS) =
     [[(2023, Text ''Tiger''), (2023, Text ''Jon'')]]"
  by code_simp

lemma ex_two_years_keys_2024:
  "map (\<lambda>p. map key_of (rows (snd p))) (loaded_frames ex_two_years_dir 2024 STAT_COLUMNS) =
     [[(2024, Text ''Tiger''), (2024, Text ''Rory'')], [(2024, Text ''Tiger'')]]"
  by code_simp

subsection \<open>The fixed schema\<close>

text \<open>
  Claim C4. Whenever \<open>build_for_year\<close> succeeds, its frame has exactly the fourteen
  columns of the fixed schema, in that order, whichever stats had files. The column of a
  stat that yielded no data holds the missing value in every row, and so does
  \<open>sg_tee_to_green\<close> unless all three of its components were loaded. Every file that
  \<open>main\<close> writes, the per-year files and the file of all years, has the same columns.
\<close>

theorem build_for_year_fixed_schema:
  "(build_for_year fadd fs year = Inr out \<longrightarrow>
      columns out =
        [''year'', ''player_name'', ''sg_total'', ''sg_off_the_tee'', ''sg_approach'', ''sg_around_green'',
         ''sg_putting'', ''driving_distance'', ''driving_accuracy'', ''greens_in_regulation'',
         ''scoring_average'', ''money_earned'', ''final_season_rank'', ''sg_tee_to_green''] \<and>
      (\<forall>sc\<in>set STAT_COLUMNS. \<not> yields_data fs year sc \<longrightarrow>
         (\<forall>r\<in>set (rows out). s_vals r (snd sc) = None)) \<and>
      (\<not> list_all (yields_data fs year)
           [(''sg_ott'', ''sg_off_the_tee''), (''sg_app'', ''sg_approach''), (''sg_arg'', ''sg_around_green'')] \<longrightarrow>
         (\<forall>r\<in>set (rows out). s_vals r ''sg_tee_to_green'' = None))) \<and>
   (\<forall>p\<in>set (fst (main fadd fs)).
      columns (snd p) =
        [''year'', ''player_name'', ''sg_total'', ''sg_off_the_tee'', ''sg_approach'', ''sg_around_green'',
         ''sg_putting'', ''driving_distance'', ''driving_accuracy'', ''greens_in_regulation'',
         ''scoring_average'', ''money_earned'', ''final_season_rank'', ''sg_tee_to_green''])"
proof -
  have a: "columns out = expected_cols" if "build_for_year fadd fs year = Inr out"
    using that by (rule build_for_year_result(1))
  have b: "\<forall>sc\<in>set STAT_COLUMNS. \<not> yields_data fs year sc \<longrightarrow>
         (\<forall>r\<in>set (rows out). s_vals r (snd sc) = None)" if "build_for_year fadd fs year = Inr out"
    using that by (rule build_for_year_result(4))
  have c: "\<forall>r\<in>set (rows out). s_vals r ''sg_tee_to_green'' = None"
    if "build_for_year fadd fs year = Inr out" and "\<not> list_all (yields_data fs year)
           [(''sg_ott'', ''sg_off_the_tee''), (''sg_app'', ''sg_approach''), (''sg_arg'', ''sg_around_green'')]"
    using build_for_year_tee_to_green [OF that(1)] that(2) by (simp only: if_False) blast
  from a b c main_written_columns [of fadd fs] show ?thesis
    unfolding expected_cols_def by blast
qed

theorem build_for_year_fixed_schema_witness:
  "\<exists>out written.
     build_for_year int_add ex_two_stats_dir 2024 = Inr out \<and>
     columns out =
        [''year'', ''player_name'', ''sg_total'', ''sg_off_the_tee'', ''sg_approach'', ''sg_around_green'',
         ''sg_putting'', ''driving_distance'', ''driving_accuracy'', ''greens_in_regulation'',
         ''scoring_average'', ''money_earned'', ''final_season_rank'', ''sg_tee_to_green''] \<and>
     main int_add ex_two_stats_dir = (written, None) \<and> written \<noteq> []"
proof -
  from build_for_year_succeeds [OF sg_total_configured ex_two_stats_yields ex_two_stats_compatible]
  obtain out where out: "build_for_year int_add ex_two_stats_dir 2024 = Inr out" by blast
  have "\<exists>written. main int_add ex_two_stats_dir = (written, None)"
    by (rule main_succeeds)
      (use ex_two_stats_years ex_two_stats_yields ex_two_stats_compatible sg_total_configured in auto)
  then obtain written where m: "main int_add ex_two_stats_dir = (written, None)" by blast
  from main_result [OF m] ex_two_stats_years have "written \<noteq> []" by auto
  with out m build_for_year_fixed_schema [of int_add ex_two_stats_dir 2024 out]
  show ?thesis by blast
qed

subsection \<open>Partial coverage\<close>

text \<open>
  Claim C5, as amended. Let the \<open>player_name\<close> columns of the files that yield data for
  the year have one dtype. If some stat yields data, \<open>build_for_year\<close> succeeds. Every
  row with a player name of the file of any stat that yields data has its key, year and
  player, in the output, and for every stat whose file is missing the column of the stat
  holds the missing value in every row of the output.
\<close>

theorem build_for_year_partial_coverage:
  assumes "sc \<in> set STAT_COLUMNS" and "yields_data fs year sc" and "names_compatible fs year"
  shows "\<exists>out. build_for_year fadd fs year = Inr out \<and>
           (\<forall>sc'\<in>set STAT_COLUMNS. yields_data fs year sc' \<longrightarrow>
              (\<forall>tbl. map_of fs (inter_path (fst sc') year) = Some (Inr tbl) \<longrightarrow>
                 (\<forall>r\<in>set (csv_rows tbl). \<forall>p. c_player r = Some p \<longrightarrow> (c_year r, p) \<in> keys out))) \<and>
           (\<forall>sc'\<in>set STAT_COLUMNS. map_of fs (inter_path (fst sc') year) = None \<longrightarrow>
              (\<forall>r\<in>set (rows out). s_vals r (snd sc') = None))"
proof -
  from build_for_year_succeeds [OF assms] obtain out where
    out: "build_for_year fadd fs year = Inr out" by blast
  have present: "(c_year r, p) \<in> keys out"
    if sc': "sc' \<in> set STAT_COLUMNS" and y: "yields_data fs year sc'"
      and tbl: "map_of fs (inter_path (fst sc') year) = Some (Inr tbl)"
      and r: "r \<in> set (csv_rows tbl)" and p: "c_player r = Some p" for sc' tbl r p
  proof -
    from y obtain df where df: "load_stat_for_year fs (fst sc') year (snd sc') = Inr (Some df)"
      by (auto simp: yields_data_def split: sum.splits option.splits)
    from load_stat_for_year_frame [OF df] tbl have
      rws: "rows df = List.map_filter (\<lambda>r.
                        case c_player r of
                          None \<Rightarrow> None
                        | Some p \<Rightarrow>
                            Some \<lparr>s_year = c_year r, s_player = p,
                                  s_vals = (\<lambda>c'. if c' = snd sc' then c_vals r c' else None)\<rparr>)
                      (csv_rows tbl)"
      by auto
    from r p have "\<lparr>s_year = c_year r, s_player = p,
        s_vals = (\<lambda>c'. if c' = snd sc' then c_vals r c' else None)\<rparr> \<in> set (rows df)"
      unfolding rws by (intro map_filter_mem [of r]) simp_all
    then have "key_of \<lparr>s_year = c_year r, s_player = p,
        s_vals = (\<lambda>c'. if c' = snd sc' then c_vals r c' else None)\<rparr> \<in> keys df"
      unfolding keys_def by (rule imageI)
    then have k: "(c_year r, p) \<in> keys df" by (simp add: key_of_def)
    from sc' df have "\<exists>s. (s, snd sc') \<in> set STAT_COLUMNS \<and>
        load_stat_for_year fs s year (snd sc') = Inr (Some df)"
      by (intro exI [of _ "fst sc'"]) simp
    then have "(snd sc', df) \<in> set (loaded_frames fs year STAT_COLUMNS)"
      by (simp add: loaded_frames_mem)
    with k show ?thesis unfolding build_for_year_result(2) [OF out] by force
  qed
  have missing: "s_vals r (snd sc') = None"
    if sc': "sc' \<in> set STAT_COLUMNS" and none: "map_of fs (inter_path (fst sc') year) = None"
      and r: "r \<in> set (rows out)" for sc' r
  proof -
    from none have "\<not> yields_data fs year sc'"
      by (simp add: yields_data_def load_stat_for_year_def)
    with build_for_year_result(4) [OF out] sc' r show ?thesis by blast
  qed
  from out present missing show ?thesis by blast
qed

theorem build_for_year_partial_coverage_witness:
  "(''sg_total'', ''sg_total'') \<in> set STAT_COLUMNS \<and>
   yields_data ex_two_stats_dir 2024 (''sg_total'', ''sg_total'') \<and>
   names_compatible ex_two_stats_dir 2024 \<and>
   map_of ex_two_stats_dir (inter_path ''sg_putt'' 2024) = None \<and>
   (\<exists>out. build_for_year int_add ex_two_stats_dir 2024 = Inr out \<and>
          (2024, Text ''Rory'') \<in> keys out \<and>
          list_all (\<lambda>r. s_vals r ''sg_putting'' = None) (rows out))"
proof -
  have missing: "map_of ex_two_stats_dir (inter_path ''sg_putt'' 2024) = None"
    by (simp add: ex_sg_putt_path ex_two_stats_dir_def)
  have tbl: "map_of ex_two_stats_dir (inter_path (fst (''sg_total'', ''sg_total'')) 2024) = Some (Inr ex_sg_total_table)"
    by (simp add: ex_sg_total_path ex_two_stats_dir_def)
  have r: "\<lparr>c_year = 2024, c_player = Some (Text ''Rory''), c_vals = vals_of [(''sg_total'', 7)]\<rparr>
      \<in> set (csv_rows ex_sg_total_table)"
    by (simp add: ex_sg_total_table_def)
  from build_for_year_partial_coverage
    [OF sg_total_configured ex_two_stats_yields ex_two_stats_compatible, of int_add]
  obtain out where out: "build_for_year int_add ex_two_stats_dir 2024 = Inr out"
    and present: "\<forall>sc'\<in>set STAT_COLUMNS. yields_data ex_two_stats_dir 2024 sc' \<longrightarrow>
              (\<forall>tbl. map_of ex_two_stats_dir (inter_path (fst sc') 2024) = Some (Inr tbl) \<longrightarrow>
                 (\<forall>r\<in>set (csv_rows tbl). \<forall>p. c_player r = Some p \<longrightarrow> (c_year r, p) \<in> keys out))"
    and absent: "\<forall>sc'\<in>set STAT_COLUMNS. map_of ex_two_stats_dir (inter_path (fst sc') 2024) = None \<longrightarrow>
              (\<forall>r\<in>set (rows out). s_vals r (snd sc') = None)"
    by blast
  have p: "c_player \<lparr>c_year = 2024, c_player = Some (Text ''Rory''),
      c_vals = vals_of [(''sg_total'', 7::int)]\<rparr> = Some (Text ''Rory'')"
    by simp
  from present [rule_format, OF sg_total_configured ex_two_stats_yields tbl r p]
  have k: "(2024, Text ''Rory'') \<in> keys out" by simp
  from absent [rule_format, OF sg_putt_configured] missing
  have "list_all (\<lambda>r. s_vals r ''sg_putting'' = None) (rows out)"
    by (simp add: list_all_iff)
  with out k missing sg_total_configured ex_two_stats_yields ex_two_stats_compatible
  show ?thesis by blast
qed

text \<open>
  Claim C5 as stated fails. In this directory the files of \<open>sg_total\<close> and of \<open>sg_ott\<close>
  are present with data and the file of \<open>sg_putt\<close> is missing. The names of the first
  file are texts and the names of the second are all numbers, so the merge of the two
  frames raises and \<open>build_for_year\<close> fails the year.
\<close>

theorem build_for_year_mixed_names_counterexample:
  "yields_data ex_mixed_names_dir 2024 (''sg_total'', ''sg_total'') \<and>
   yields_data ex_mixed_names_dir 2024 (''sg_ott'', ''sg_off_the_tee'') \<and>
   map_of ex_mixed_names_dir (inter_path ''sg_putt'' 2024) = None \<and>
   build_for_year int_add ex_mixed_names_dir 2024 = Inl (Build MergeKeyError)"
proof -
  have "map_of ex_mixed_names_dir (inter_path ''sg_putt'' 2024) = None"
    by (simp add: ex_sg_putt_path ex_mixed_names_dir_def)
  with ex_mixed_names_yields_total ex_mixed_names_yields_ott ex_mixed_names_raises
  show ?thesis by blast
qed

subsection \<open>The file of all years\<close>

text \<open>
  Claim C9. When \<open>main\<close> runs to its end on a directory with at least one year, the
  years are strictly ascending, \<open>build_for_year\<close> has given one frame per year, the files
  written are the per-year files in the order of the years followed by the file of all
  years, and the rows of the latter are the rows of the per-year frames one after the
  other, each frame in its own order.
\<close>

theorem main_concatenates_years:
  assumes "main fadd fs = (written, None)" and "discover_years (map fst fs) \<noteq> []"
  shows "\<exists>dfs. sorted_wrt (<) (discover_years (map fst fs)) \<and>
           map (build_for_year fadd fs) (discover_years (map fst fs)) = map Inr dfs \<and>
           written = map2 (\<lambda>y df. (''master_'' @ py_str_int y, df)) (discover_years (map fst fs)) dfs
                       @ [(''master_player_seasons'', concat_frames dfs)] \<and>
           rows (concat_frames dfs) = concat (map rows dfs) \<and>
           columns (concat_frames dfs) = expected_cols"
proof -
  from main_result [OF assms] obtain dfs where
    "map (build_for_year fadd fs) (discover_years (map fst fs)) = map Inr dfs"
    "written = map2 (\<lambda>y df. (''master_'' @ py_str_int y, df)) (discover_years (map fst fs)) dfs
                       @ [(''master_player_seasons'', concat_frames dfs)]"
    "columns (concat_frames dfs) = expected_cols" by blast
  moreover have "rows (concat_frames dfs) = concat (map rows dfs)" by (simp add: concat_frames_def)
  ultimately show ?thesis using sorted_discover_years by blast
qed

theorem main_concatenates_years_witness:
  "map fst ex_two_years_dir = [''sg_total_2024'', ''sg_ott_2024'', ''sg_total_2023''] \<and>
   discover_years (map fst ex_two_years_dir) = [2023, 2024] \<and>
   (\<exists>written df23 df24.
      main int_add ex_two_years_dir = (written, None) \<and>
      build_for_year int_add ex_two_years_dir 2023 = Inr df23 \<and>
      build_for_year int_add ex_two_years_dir 2024 = Inr df24 \<and>
      written = [(''master_2023'', df23), (''master_2024'', df24),
                 (''master_player_seasons'', concat_frames [df23, df24])] \<and>
      rows (concat_frames [df23, df24]) = rows df23 @ rows df24 \<and>
      keys df23 = {(2023, Text ''Jon''), (2023, Text ''Tiger'')} \<and>
      keys df24 = {(2024, Text ''Rory''), (2024, Text ''Tiger'')})"
proof -
  have "\<exists>written. main int_add ex_two_years_dir = (written, None)"
    by (rule main_succeeds)
      (use ex_two_years_years ex_two_years_yields_2023 ex_two_years_yields_2024
        ex_two_years_compatible_2023 ex_two_years_compatible_2024 sg_total_configured in auto)
  then obtain written where m: "main int_add ex_two_years_dir = (written, None)" by blast
  have ne: "discover_years (map fst ex_two_years_dir) \<noteq> []" by (simp add: ex_two_years_years)
  have n23: "''master_'' @ py_str_int 2023 = ''master_2023''" by code_simp
  have n24: "''master_'' @ py_str_int 2024 = ''master_2024''" by code_simp
  from main_concatenates_years [OF m ne] obtain dfs where
    b: "map (build_for_year int_add ex_two_years_dir) [2023, 2024] = map Inr dfs"
    and w: "written = map2 (\<lambda>y df. (''master_'' @ py_str_int y, df)) [2023, 2024] dfs
                       @ [(''master_player_seasons'', concat_frames dfs)]"
    and c: "rows (concat_frames dfs) = concat (map rows dfs)"
    unfolding ex_two_years_years by blast
  from b obtain df23 df24 where dfs: "dfs = [df23, df24]"
    and df23: "build_for_year int_add ex_two_years_dir 2023 = Inr df23"
    and df24: "build_for_year int_add ex_two_years_dir 2024 = Inr df24"
    by (cases dfs; cases "tl dfs") auto
  from w dfs n23 n24 have w': "written = [(''master_2023'', df23), (''master_2024'', df24),
      (''master_player_seasons'', concat_frames [df23, df24])]"
    by simp
  from c dfs have c': "rows (concat_frames [df23, df24]) = rows df23 @ rows df24" by simp
  have k23: "keys df23 = {(2023, Text ''Jon''), (2023, Text ''Tiger'')}"
    unfolding build_for_year_result(2) [OF df23] keys_loaded ex_two_years_keys_2023 by auto
  have k24: "keys df24 = {(2024, Text ''Rory''), (2024, Text ''Tiger'')}"
    unfolding build_for_year_result(2) [OF df24] keys_loaded ex_two_years_keys_2024 by auto
  have stems: "map fst ex_two_years_dir = [''sg_total_2024'', ''sg_ott_2024'', ''sg_total_2023'']"
    by (simp add: ex_two_years_dir_def)
  from stems ex_two_years_years m df23 df24 w' c' k23 k24 show ?thesis by blast
qed

subsection \<open>Frames loaded from the files of the normalizer\<close>

lemma parse_one_file_distinct:
  "parse_one_file to_num render stem fl = Inr tf \<Longrightarrow> distinct (map t_player (t_rows tf))"
  by (auto simp: parse_one_file_def Let_def drop_duplicates_distinct
      split: option.splits sum.splits prod.splits)













subsection \<open>One row for every player of the year\<close>




subsection \<open>When build\_for\_year raises\<close>

text \<open>
  Claim C6, as amended. \<open>build_for_year\<close> raises if and only if none of the configured
  stats yields data for the year, that is, if every call of \<open>load_stat_for_year\<close> raises
  (the file is missing or fails to load) or returns None (the file is empty after
  filtering), or the \<open>player_name\<close> columns of the files that yield data are not of one
  dtype. In the first case the error carries the list of the stats whose load raised and
  the list of the stats whose file was empty, and every configured stat is in one of the
  two. In the second case the error is the one of the merge.
\<close>

theorem build_for_year_raises_iff:
  "((\<exists>e. build_for_year fadd fs year = Inl e) \<longleftrightarrow>
      list_all (\<lambda>sc. \<not> yields_data fs year sc) STAT_COLUMNS \<or> \<not> names_compatible fs year) \<and>
   (list_all (\<lambda>sc. \<not> yields_data fs year sc) STAT_COLUMNS \<longrightarrow>
      build_for_year fadd fs year =
        Inl (Build (NoData year
               (map fst (filter (load_raises fs year) STAT_COLUMNS))
               (map fst (filter (load_empty fs year) STAT_COLUMNS)))) \<and>
      list_all (\<lambda>sc. load_raises fs year sc \<or> load_empty fs year sc) STAT_COLUMNS) \<and>
   (\<not> list_all (\<lambda>sc. \<not> yields_data fs year sc) STAT_COLUMNS \<and> \<not> names_compatible fs year \<longrightarrow>
      build_for_year fadd fs year = Inl (Build MergeKeyError))"
proof -
  have e: "loaded_frames fs year STAT_COLUMNS = [] \<longleftrightarrow>
        list_all (\<lambda>sc. \<not> yields_data fs year sc) STAT_COLUMNS"
    by (simp add: loaded_frames_empty_iff list_all_iff)
  have "load_raises fs year sc \<or> load_empty fs year sc" if "\<not> yields_data fs year sc" for sc
    using that by (auto simp: yields_data_def load_raises_def load_empty_def
        split: sum.splits option.splits)
  then have c: "list_all (\<lambda>sc. \<not> yields_data fs year sc) STAT_COLUMNS \<Longrightarrow>
      list_all (\<lambda>sc. load_raises fs year sc \<or> load_empty fs year sc) STAT_COLUMNS"
    by (simp add: list_all_iff)
  show ?thesis
  proof (cases "loaded_frames fs year STAT_COLUMNS")
    case Nil
    with e have n: "list_all (\<lambda>sc. \<not> yields_data fs year sc) STAT_COLUMNS" by simp
    from Nil have "build_for_year fadd fs year =
        Inl (Build (NoData year
               (map fst (filter (load_raises fs year) STAT_COLUMNS))
               (map fst (filter (load_empty fs year) STAT_COLUMNS))))"
      by (simp add: build_for_year_eq)
    with n c show ?thesis by simp
  next
    case (Cons p ps)
    with e have n: "\<not> list_all (\<lambda>sc. \<not> yields_data fs year sc) STAT_COLUMNS" by simp
    from Cons have "build_for_year fadd fs year =
        (if names_compatible fs year
         then Inr (finish fadd (foldl merge_outer (snd p) (map snd ps)))
         else Inl (Build MergeKeyError))"
      by (simp add: build_for_year_eq)
    with n show ?thesis by simp
  qed
qed

theorem build_for_year_raises_iff_witness:
  "list_all (\<lambda>sc. \<not> yields_data ex_empty_file_dir 2024 sc) STAT_COLUMNS \<and>
   build_for_year int_add ex_empty_file_dir 2024 =
     Inl (Build (NoData 2024
       [''sg_ott'', ''sg_app'', ''sg_arg'', ''sg_putt'', ''driving_distance'', ''driving_accuracy'',
        ''greens_in_regulation'', ''scoring_average'', ''money_earned'', ''fedex_rank'']
       [''sg_total''])) \<and>
   \<not> list_all (\<lambda>sc. \<not> yields_data ex_mixed_names_dir 2024 sc) STAT_COLUMNS \<and>
   \<not> names_compatible ex_mixed_names_dir 2024 \<and>
   build_for_year int_add ex_mixed_names_dir 2024 = Inl (Build MergeKeyError) \<and>
   names_compatible ex_two_stats_dir 2024 \<and>
   \<not> list_all (\<lambda>sc. \<not> yields_data ex_two_stats_dir 2024 sc) STAT_COLUMNS \<and>
   (\<exists>out. build_for_year int_add ex_two_stats_dir 2024 = Inr out)"
proof -
  have h: "list_all (\<lambda>sc. \<not> yields_data ex_empty_file_dir 2024 sc) STAT_COLUMNS"
    by code_simp
  have s: "map fst (filter (load_raises ex_empty_file_dir 2024) STAT_COLUMNS) =
       [''sg_ott'', ''sg_app'', ''sg_arg'', ''sg_putt'', ''driving_distance'', ''driving_accuracy'',
        ''greens_in_regulation'', ''scoring_average'', ''money_earned'', ''fedex_rank'']"
    by code_simp
  have e: "map fst (filter (load_empty ex_empty_file_dir 2024) STAT_COLUMNS) = [''sg_total'']"
    by code_simp
  from build_for_year_raises_iff [of int_add ex_empty_file_dir 2024] h
  have "build_for_year int_add ex_empty_file_dir 2024 =
        Inl (Build (NoData 2024
               (map fst (filter (load_raises ex_empty_file_dir 2024) STAT_COLUMNS))
               (map fst (filter (load_empty ex_empty_file_dir 2024) STAT_COLUMNS))))"
    by blast
  with s e have a: "build_for_year int_add ex_empty_file_dir 2024 =
     Inl (Build (NoData 2024
       [''sg_ott'', ''sg_app'', ''sg_arg'', ''sg_putt'', ''driving_distance'', ''driving_accuracy'',
        ''greens_in_regulation'', ''scoring_average'', ''money_earned'', ''fedex_rank'']
       [''sg_total'']))"
    by simp
  have m1: "\<not> list_all (\<lambda>sc. \<not> yields_data ex_mixed_names_dir 2024 sc) STAT_COLUMNS"
    using sg_total_configured ex_mixed_names_yields_total by (auto simp: list_all_iff)
  have m2: "\<not> names_compatible ex_mixed_names_dir 2024"
    by (simp add: names_compatible_def ex_mixed_names_dtypes)
  from build_for_year_raises_iff [of int_add ex_mixed_names_dir 2024] m1 m2
  have b: "build_for_year int_add ex_mixed_names_dir 2024 = Inl (Build MergeKeyError)"
    by blast
  have t1: "\<not> list_all (\<lambda>sc. \<not> yields_data ex_two_stats_dir 2024 sc) STAT_COLUMNS"
    using sg_total_configured ex_two_stats_yields by (auto simp: list_all_iff)
  from build_for_year_raises_iff [of int_add ex_two_stats_dir 2024] t1 ex_two_stats_compatible
  have "\<not> (\<exists>e. build_for_year int_add ex_two_stats_dir 2024 = Inl e)" by blast
  then have c: "\<exists>out. build_for_year int_add ex_two_stats_dir 2024 = Inr out"
    by (cases "build_for_year int_add ex_two_stats_dir 2024") auto
  from h a m1 m2 b ex_two_stats_compatible t1 c show ?thesis by blast
qed

text \<open>
  Claim C6 as stated fails. In this directory the files of \<open>sg_total\<close> and of \<open>sg_ott\<close>
  yield data for 2024, so it is not the case that no stat yields data, and
  \<open>build_for_year\<close> raises all the same: the names of one file are texts, the names of
  the other are numbers, and the merge refuses the two key columns. The error is not the
  one that lists the skipped and the empty stats.
\<close>

theorem build_for_year_raises_with_data_counterexample:
  "\<not> list_all (\<lambda>sc. \<not> yields_data ex_mixed_names_dir 2024 sc) STAT_COLUMNS \<and>
   (\<exists>e. build_for_year int_add ex_mixed_names_dir 2024 = Inl e) \<and>
   (\<forall>skipped empty. build_for_year int_add ex_mixed_names_dir 2024 \<noteq>
      Inl (Build (NoData 2024 skipped empty)))"
proof -
  have "\<not> list_all (\<lambda>sc. \<not> yields_data ex_mixed_names_dir 2024 sc) STAT_COLUMNS"
    using sg_total_configured ex_mixed_names_yields_total by (auto simp: list_all_iff)
  with ex_mixed_names_raises show ?thesis by simp
qed

section \<open>Properties of the fetcher\<close>

text \<open>
  Claim C10, as amended. When the response has a client-error or server-error status
  (400 to 599), \<open>download_stat_csv\<close> raises and the directory of raw files is as before;
  for every other status it returns and the file of the stat and year holds the bytes of
  the response as received, every other file being as before.
\<close>

theorem download_stat_csv_writes_unless_error_status:
  "download_stat_csv raw_dir stat_name stat_id year (Inr resp) =
     (if 400 \<le> status_code resp \<and> status_code resp < 600
      then (Inl (HTTPError (status_code resp)), raw_dir)
      else (Inr (), raw_dir(stat_name @ ''_'' @ py_str_int year \<mapsto> content resp)))"
  by (simp add: download_stat_csv_def raise_for_status_def)

text \<open>
  Claim C10 as stated fails for a status that is neither a success nor an error of the
  client or the server: on the response 304 the function does not raise and writes the
  file.
\<close>

theorem download_stat_csv_not_modified_counterexample:
  "\<not> is_success 304 \<and>
   fst (download_stat_csv Map.empty ''sg_total'' ''02675'' 2024
          (Inr \<lparr>status_code = 304, content = ''x''\<rparr>)) = Inr () \<and>
   snd (download_stat_csv Map.empty ''sg_total'' ''02675'' 2024
          (Inr \<lparr>status_code = 304, content = ''x''\<rparr>)) ''sg_total_2024'' = Some ''x''"
  by code_simp

end
